theory Spec2Isabelle
  imports Main "HOL-Library.Word"
begin

unbundle bit_operations_syntax

section \<open>Bytes and buffers\<close>

text \<open>
  The session buffer \<^verbatim>\<open>char buf[1024]\<close> and every structure the code lays over it
  (\<^verbatim>\<open>struct nlmsghdr\<close>, \<^verbatim>\<open>struct rtmsg\<close>, \<^verbatim>\<open>struct rtattr\<close>, \<^verbatim>\<open>struct nlmsgerr\<close>)
  are modelled as a list of bytes that is read and written at byte offsets. Netlink
  uses host byte order; the model fixes a little-endian host.
\<close>

type_synonym byte = "8 word"

definition le16 :: "16 word \<Rightarrow> byte list" where
  "le16 v = [ucast v, ucast (drop_bit 8 v)]"

definition le32 :: "32 word \<Rightarrow> byte list" where
  "le32 v = [ucast v, ucast (drop_bit 8 v), ucast (drop_bit 16 v), ucast (drop_bit 24 v)]"

definition get_u16 :: "byte list \<Rightarrow> nat \<Rightarrow> 16 word" where
  "get_u16 b off = ucast (b ! off) OR push_bit 8 (ucast (b ! (off + 1)))"

definition get_u32 :: "byte list \<Rightarrow> nat \<Rightarrow> 32 word" where
  "get_u32 b off =
     ucast (b ! off) OR push_bit 8 (ucast (b ! (off + 1))) OR
     push_bit 16 (ucast (b ! (off + 2))) OR push_bit 24 (ucast (b ! (off + 3)))"

text \<open>
  \<^verbatim>\<open>memcpy(b + off, bs, length bs)\<close> into the array \<open>b\<close>. A write past the end of
  the array is undefined in C; the model keeps the array's size and drops the bytes
  that do not fit. Every theorem below is about inputs whose writes stay inside.
\<close>

definition put_bytes :: "nat \<Rightarrow> byte list \<Rightarrow> byte list \<Rightarrow> byte list" where
  "put_bytes off bs b = take (length b) (take off b @ bs @ drop (off + length bs) b)"

text \<open>The \<open>n\<close> bytes of \<open>b\<close> that start at offset \<open>off\<close>.\<close>

definition bytes_at :: "byte list \<Rightarrow> nat \<Rightarrow> nat \<Rightarrow> byte list" where
  "bytes_at b off n = take n (drop off b)"

section \<open>The netlink wire format\<close>

text \<open>
  Constants and macros of \<^verbatim>\<open><linux/netlink.h>\<close>, \<^verbatim>\<open><linux/rtnetlink.h>\<close>,
  \<^verbatim>\<open><sys/socket.h>\<close> and \<^verbatim>\<open><errno.h>\<close> on Linux, which the source includes.
\<close>

abbreviation (input) NLMSG_ERROR :: "16 word" where "NLMSG_ERROR \<equiv> 2"
abbreviation (input) NLMSG_DONE :: "16 word" where "NLMSG_DONE \<equiv> 3"
abbreviation (input) NLM_F_REQUEST :: "16 word" where "NLM_F_REQUEST \<equiv> 1"
abbreviation (input) NLM_F_MULTI :: "16 word" where "NLM_F_MULTI \<equiv> 2"
abbreviation (input) NLM_F_ACK :: "16 word" where "NLM_F_ACK \<equiv> 4"
abbreviation (input) NLM_F_REPLACE :: "int" where "NLM_F_REPLACE \<equiv> 256"
abbreviation (input) NLM_F_CREATE :: "int" where "NLM_F_CREATE \<equiv> 1024"
abbreviation (input) RTM_NEWROUTE :: "int" where "RTM_NEWROUTE \<equiv> 24"
abbreviation (input) RTM_DELROUTE :: "int" where "RTM_DELROUTE \<equiv> 25"
abbreviation (input) RTM_GETROUTE :: "int" where "RTM_GETROUTE \<equiv> 26"
abbreviation (input) RT_TABLE_MAIN :: "byte" where "RT_TABLE_MAIN \<equiv> 254"
abbreviation (input) RT_SCOPE_UNIVERSE :: "byte" where "RT_SCOPE_UNIVERSE \<equiv> 0"
abbreviation (input) RT_SCOPE_LINK :: "byte" where "RT_SCOPE_LINK \<equiv> 253"
abbreviation (input) RTPROT_BOOT :: "byte" where "RTPROT_BOOT \<equiv> 3"
abbreviation (input) RTN_UNICAST :: "byte" where "RTN_UNICAST \<equiv> 1"
abbreviation (input) RTA_DST :: "int" where "RTA_DST \<equiv> 1"
abbreviation (input) RTA_OIF :: "int" where "RTA_OIF \<equiv> 4"
abbreviation (input) RTA_GATEWAY :: "int" where "RTA_GATEWAY \<equiv> 5"
abbreviation (input) RTA_PREFSRC :: "int" where "RTA_PREFSRC \<equiv> 7"
abbreviation (input) AF_INET :: "int" where "AF_INET \<equiv> 2"
abbreviation (input) AF_INET6 :: "int" where "AF_INET6 \<equiv> 10"
abbreviation (input) EINTR :: "int" where "EINTR \<equiv> 4"
abbreviation (input) ENXIO :: "int" where "ENXIO \<equiv> 6"
abbreviation (input) EAGAIN :: "int" where "EAGAIN \<equiv> 11"

text \<open>\<^verbatim>\<open>sizeof(struct nlmsghdr)\<close>, \<^verbatim>\<open>sizeof(struct rtmsg)\<close>, \<^verbatim>\<open>sizeof(struct rtattr)\<close>.\<close>

abbreviation (input) sizeof_nlmsghdr :: "int" where "sizeof_nlmsghdr \<equiv> 16"
abbreviation (input) sizeof_rtmsg :: "int" where "sizeof_rtmsg \<equiv> 12"
abbreviation (input) sizeof_rtattr :: "int" where "sizeof_rtattr \<equiv> 4"

text \<open>
  The macros compute in unsigned arithmetic and their results are stored in 32-bit
  or 16-bit fields, so they are modelled on \<open>32 word\<close>; an \<^verbatim>\<open>int\<close> operand is
  converted as C converts it.
\<close>

definition NLMSG_ALIGN :: "32 word \<Rightarrow> 32 word" where
  "NLMSG_ALIGN n = (n + 3) AND NOT 3"

definition NLMSG_HDRLEN :: "32 word" where
  "NLMSG_HDRLEN = NLMSG_ALIGN (word_of_int sizeof_nlmsghdr)"

definition NLMSG_LENGTH :: "int \<Rightarrow> 32 word" where
  "NLMSG_LENGTH n = word_of_int n + NLMSG_HDRLEN"

definition NLMSG_SPACE :: "int \<Rightarrow> 32 word" where
  "NLMSG_SPACE n = NLMSG_ALIGN (NLMSG_LENGTH n)"

definition RTA_ALIGN :: "32 word \<Rightarrow> 32 word" where
  "RTA_ALIGN n = (n + 3) AND NOT 3"

definition RTA_LENGTH :: "int \<Rightarrow> 32 word" where
  "RTA_LENGTH n = RTA_ALIGN (word_of_int sizeof_rtattr) + word_of_int n"

definition RTA_SPACE :: "int \<Rightarrow> 32 word" where
  "RTA_SPACE n = RTA_ALIGN (RTA_LENGTH n)"

text \<open>Fields of \<^verbatim>\<open>struct nlmsghdr\<close>, which starts the buffer.\<close>

definition nlmsg_len :: "byte list \<Rightarrow> 32 word" where "nlmsg_len b = get_u32 b 0"
definition nlmsg_type :: "byte list \<Rightarrow> 16 word" where "nlmsg_type b = get_u16 b 4"
definition nlmsg_flags :: "byte list \<Rightarrow> 16 word" where "nlmsg_flags b = get_u16 b 6"
definition nlmsg_seq :: "byte list \<Rightarrow> 32 word" where "nlmsg_seq b = get_u32 b 8"
definition nlmsg_pid :: "byte list \<Rightarrow> 32 word" where "nlmsg_pid b = get_u32 b 12"

text \<open>
  \<^verbatim>\<open>NLMSG_DATA(nlh)\<close> is the address \<open>NLMSG_HDRLEN\<close> bytes after the header. The
  first field there is \<^verbatim>\<open>int error\<close> of \<^verbatim>\<open>struct nlmsgerr\<close>, or the fields of
  \<^verbatim>\<open>struct rtmsg\<close>, one byte each.
\<close>

definition NLMSG_DATA :: "nat" where "NLMSG_DATA = unat NLMSG_HDRLEN"

definition nlmsgerr_error :: "byte list \<Rightarrow> int" where
  "nlmsgerr_error b = sint (get_u32 b NLMSG_DATA)"

text \<open>
  The unary minus of a C \<^verbatim>\<open>int\<close>, as \<^verbatim>\<open>errno = -err->error\<close> computes it on the
  32-bit two's complement machine: the negation of \<open>-2147483648\<close> does not fit an
  \<^verbatim>\<open>int\<close> and comes out as \<open>-2147483648\<close> again.
\<close>

definition neg_int :: "int \<Rightarrow> int" where
  "neg_int x = sint (- (word_of_int x :: 32 word))"

definition rtm_family :: "byte list \<Rightarrow> byte" where "rtm_family b = b ! NLMSG_DATA"
definition rtm_dst_len :: "byte list \<Rightarrow> byte" where "rtm_dst_len b = b ! (NLMSG_DATA + 1)"
definition rtm_src_len :: "byte list \<Rightarrow> byte" where "rtm_src_len b = b ! (NLMSG_DATA + 2)"
definition rtm_tos :: "byte list \<Rightarrow> byte" where "rtm_tos b = b ! (NLMSG_DATA + 3)"
definition rtm_table :: "byte list \<Rightarrow> byte" where "rtm_table b = b ! (NLMSG_DATA + 4)"
definition rtm_protocol :: "byte list \<Rightarrow> byte" where "rtm_protocol b = b ! (NLMSG_DATA + 5)"
definition rtm_scope :: "byte list \<Rightarrow> byte" where "rtm_scope b = b ! (NLMSG_DATA + 6)"
definition rtm_type :: "byte list \<Rightarrow> byte" where "rtm_type b = b ! (NLMSG_DATA + 7)"
definition rtm_flags :: "byte list \<Rightarrow> 32 word" where "rtm_flags b = get_u32 b (NLMSG_DATA + 8)"

text \<open>
  \<^verbatim>\<open>NLMSG_OK(nlh, len)\<close>: \<^verbatim>\<open>len >= (int) sizeof(struct nlmsghdr)\<close> on \<^verbatim>\<open>int\<close>, then
  two unsigned comparisons of the 32-bit \<^verbatim>\<open>nlmsg_len\<close>.
\<close>

definition NLMSG_OK :: "byte list \<Rightarrow> int \<Rightarrow> bool" where
  "NLMSG_OK b n \<longleftrightarrow>
     n \<ge> sizeof_nlmsghdr \<and> nlmsg_len b \<ge> word_of_int sizeof_nlmsghdr \<and>
     nlmsg_len b \<le> word_of_int n"

section \<open>The session and its receive loop\<close>

text \<open>\<^verbatim>\<open>struct sstp_route_ctx\<close>; its C \<^verbatim>\<open>int\<close> fields are integers.\<close>

record sstp_route_ctx =
  sock :: int
  seq :: int
  len :: int
  buf :: "byte list"

text \<open>
  What one call of \<^verbatim>\<open>recv\<close> on the socket gives: a failure with its \<^verbatim>\<open>errno\<close>, or a
  datagram (an empty one is the return value 0).
\<close>

datatype recv_result = RecvErr int | RecvData "byte list"

text \<open>
  The loop of \<^verbatim>\<open>sstp_route_recv\<close>. The arguments are the value of \<^verbatim>\<open>getpid()\<close>, the
  session, \<^verbatim>\<open>errno\<close>, and what the coming calls of \<^verbatim>\<open>recv\<close> return, in order; the
  result is the return value, the session, \<^verbatim>\<open>errno\<close> and the results of \<^verbatim>\<open>recv\<close>
  not yet consumed. \<open>None\<close> is the call of \<^verbatim>\<open>recv\<close> that never returns because
  nothing more arrives.

  \<^verbatim>\<open>recv\<close> is given \<^verbatim>\<open>sizeof(ctx->buf) - ctx->len\<close> bytes of room at
  \<^verbatim>\<open>ctx->buf + ctx->len\<close> and cuts a longer datagram to that room. The header
  pointer \<^verbatim>\<open>nlh\<close> stays at the start of the buffer. A \<^verbatim>\<open>continue\<close> inside
  \<^verbatim>\<open>do ... while (c)\<close> jumps to the test of \<^verbatim>\<open>c\<close>, which is
  \<^verbatim>\<open>nlh->nlmsg_len > ctx->len\<close> with \<^verbatim>\<open>ctx->len\<close> converted to unsigned.

  \<^verbatim>\<open>errno\<close> is what the last failed \<^verbatim>\<open>recv\<close> set, or the negated code of an error
  frame (\<open>neg_int\<close>); a \<^verbatim>\<open>recv\<close> that succeeds, and the \<^verbatim>\<open>printf\<close> on a malformed
  message, are taken to leave it as it was.
\<close>

definition recv_again :: "sstp_route_ctx \<Rightarrow> bool" where
  "recv_again ctx \<longleftrightarrow> nlmsg_len (buf ctx) > word_of_int (len ctx)"

fun recv_loop ::
  "int \<Rightarrow> sstp_route_ctx \<Rightarrow> int \<Rightarrow> recv_result list \<Rightarrow>
     (int \<times> sstp_route_ctx \<times> int \<times> recv_result list) option" where
  "recv_loop pid ctx eno [] = None"
| "recv_loop pid ctx eno (RecvErr e # evs) =
     (if e = EAGAIN \<or> e = EINTR
      then (if recv_again ctx then recv_loop pid ctx e evs
            else Some (len ctx, ctx, e, evs))
      else Some (- 1, ctx, e, evs))"
| "recv_loop pid ctx eno (RecvData d # evs) =
     (let dat = take (nat (1024 - len ctx)) d;
          n = int (length dat);
          ctx1 = ctx\<lparr>buf := put_bytes (nat (len ctx)) dat (buf ctx)\<rparr>
      in if n = 0 then Some (- 1, ctx1, eno, evs)
         else if \<not> NLMSG_OK (buf ctx1) n then Some (- 1, ctx1, eno, evs)
         else if nlmsg_type (buf ctx1) = NLMSG_ERROR \<and> nlmsgerr_error (buf ctx1) \<noteq> 0
           then Some (- 1, ctx1, neg_int (nlmsgerr_error (buf ctx1)), evs)
         else if nlmsg_seq (buf ctx1) \<noteq> word_of_int (seq ctx1) \<or>
                 nlmsg_pid (buf ctx1) \<noteq> word_of_int pid
           then (if recv_again ctx1 then recv_loop pid ctx1 eno evs
                 else Some (len ctx1, ctx1, eno, evs))
         else
           (let ctx2 = ctx1\<lparr>len := n\<rparr>
            in if nlmsg_type (buf ctx2) = NLMSG_DONE then Some (len ctx2, ctx2, eno, evs)
               else if nlmsg_flags (buf ctx2) AND NLM_F_MULTI = 0
                 then Some (len ctx2, ctx2, eno, evs)
               else if recv_again ctx2 then recv_loop pid ctx2 eno evs
               else Some (len ctx2, ctx2, eno, evs)))"

definition sstp_route_recv ::
  "int \<Rightarrow> sstp_route_ctx \<Rightarrow> int \<Rightarrow> recv_result list \<Rightarrow>
     (int \<times> sstp_route_ctx \<times> int \<times> recv_result list) option" where
  "sstp_route_recv pid ctx eno evs = recv_loop pid (ctx\<lparr>len := 0\<rparr>) eno evs"

text \<open>
  What the call of \<^verbatim>\<open>send\<close> gives: a failure with its \<^verbatim>\<open>errno\<close>, or the number of
  bytes taken.
\<close>

datatype send_result = SendErr int | SendLen int

text \<open>
  \<^verbatim>\<open>sstp_route_talk(ctx, data, size)\<close>. Every caller passes the session buffer as
  \<^verbatim>\<open>data\<close>. A failed \<^verbatim>\<open>send\<close> returns \<open>-1\<close> and sets \<^verbatim>\<open>errno\<close>; whatever
  \<^verbatim>\<open>send\<close> returns is returned as it is when it differs from \<^verbatim>\<open>size\<close>.
\<close>

definition sstp_route_talk ::
  "int \<Rightarrow> sstp_route_ctx \<Rightarrow> int \<Rightarrow> send_result \<Rightarrow> int \<Rightarrow> recv_result list \<Rightarrow>
     (int \<times> sstp_route_ctx \<times> int \<times> recv_result list) option" where
  "sstp_route_talk pid ctx sz sr eno evs =
     (case (case sr of SendErr e \<Rightarrow> (- 1, e) | SendLen k \<Rightarrow> (k, eno)) of
        (n, eno1) \<Rightarrow>
          if n \<noteq> sz then Some (n, ctx, eno1, evs)
          else sstp_route_recv pid ctx eno1 evs)"

section \<open>The message builder\<close>

text \<open>
  Modelled from the spec: the structure \<^verbatim>\<open>sstp_route_st\<close> of the protocol backend; its
  declaration, in a header that \<^verbatim>\<open>sstp-private.h\<close> includes, is missing. The spec gives
  the fields:
  the address family, the raw address bytes of destination, source and gateway, the
  output interface index (an integer of \<^verbatim>\<open>sizeof(int) = 4\<close> bytes), the interface
  name, the address length \<open>rt_blen\<close>, and one presence flag for each of
  \<open>dst\<close>, \<open>src\<close>, \<open>gwy\<close> and \<open>oif\<close> (\<^verbatim>\<open>route->have.dst\<close> and so on). An address
  field is the list of the bytes of its array.
\<close>

record sstp_route =
  have_oif :: bool
  have_src :: bool
  have_gwy :: bool
  have_dst :: bool
  family :: int
  rt_blen :: int
  gwy :: "byte list"
  dst :: "byte list"
  src :: "byte list"
  oif :: "32 word"
  ifname :: string

text \<open>\<^verbatim>\<open>NLMSG_TAIL(n)\<close>, as an offset into the buffer.\<close>

definition NLMSG_TAIL :: "byte list \<Rightarrow> nat" where
  "NLMSG_TAIL b = unat (NLMSG_ALIGN (nlmsg_len b))"

text \<open>
  \<^verbatim>\<open>struct rtattr\<close> is \<^verbatim>\<open>rta_len\<close> then \<^verbatim>\<open>rta_type\<close>, 16 bits each; \<^verbatim>\<open>RTA_DATA(rta)\<close>
  is \<^verbatim>\<open>RTA_LENGTH(0)\<close> bytes after \<open>rta\<close>.
\<close>

definition rta_len :: "byte list \<Rightarrow> nat \<Rightarrow> 16 word" where "rta_len b rta = get_u16 b rta"
definition rta_type :: "byte list \<Rightarrow> nat \<Rightarrow> 16 word" where "rta_type b rta = get_u16 b (rta + 2)"
definition RTA_DATA :: "nat \<Rightarrow> nat" where "RTA_DATA rta = rta + unat (RTA_LENGTH 0)"

text \<open>
  \<^verbatim>\<open>sstp_route_addattr(nlh, type, len, value)\<close>; \<open>val\<close> is the bytes of the object
  that \<^verbatim>\<open>value\<close> points to, of which \<^verbatim>\<open>memcpy\<close> takes the first \<open>n\<close>.
\<close>

definition sstp_route_addattr :: "byte list \<Rightarrow> int \<Rightarrow> int \<Rightarrow> byte list \<Rightarrow> byte list" where
  "sstp_route_addattr b ty n val =
     (let rta = NLMSG_TAIL b;
          b1 = put_bytes (rta + 2) (le16 (word_of_int ty)) b;
          b2 = put_bytes rta (le16 (ucast (RTA_LENGTH n))) b1;
          b3 = put_bytes 0 (le32 (NLMSG_ALIGN (nlmsg_len b2) + RTA_SPACE n)) b2
      in put_bytes (RTA_DATA rta) (take (nat n) val) b3)"

text \<open>
  \<^verbatim>\<open>sstp_route_newmsg(ctx, route, cmd, flags)\<close>, with the value of \<^verbatim>\<open>getpid()\<close>.
  The result is the return value and the session.
\<close>

definition sstp_route_newmsg ::
  "int \<Rightarrow> sstp_route_ctx \<Rightarrow> sstp_route \<Rightarrow> int \<Rightarrow> int \<Rightarrow> int \<times> sstp_route_ctx" where
  "sstp_route_newmsg pid ctx route cmd flags =
     (let b0 = replicate 1024 0;
          b1 = put_bytes 0 (le32 (NLMSG_LENGTH sizeof_rtmsg)) b0;
          b2 = put_bytes 4 (le16 (word_of_int cmd)) b1;
          b3 = put_bytes 6 (le16 (NLM_F_REQUEST OR NLM_F_ACK OR word_of_int flags)) b2;
          ctx1 = ctx\<lparr>seq := seq ctx + 1\<rparr>;
          b4 = put_bytes 8 (le32 (word_of_int (seq ctx1))) b3;
          b5 = put_bytes 12 (le32 (word_of_int pid)) b4;
          b6 = put_bytes (NLMSG_DATA + 4) [RT_TABLE_MAIN] b5;
          b7 = put_bytes NLMSG_DATA [word_of_int (family route)] b6;
          b8 = put_bytes (NLMSG_DATA + 6)
                 [if have_gwy route then RT_SCOPE_UNIVERSE else RT_SCOPE_LINK] b7;
          b9 = (if cmd \<noteq> RTM_DELROUTE
                then put_bytes (NLMSG_DATA + 7) [RTN_UNICAST]
                       (put_bytes (NLMSG_DATA + 5) [RTPROT_BOOT] b8)
                else b8);
          b10 = (if have_dst route
                 then put_bytes (NLMSG_DATA + 1) [word_of_int (push_bit 3 (rt_blen route))]
                        (sstp_route_addattr b9 RTA_DST (rt_blen route) (dst route))
                 else b9);
          b11 = (if have_src route
                 then put_bytes (NLMSG_DATA + 2) [word_of_int (push_bit 3 (rt_blen route))]
                        (sstp_route_addattr b10 RTA_PREFSRC (rt_blen route) (src route))
                 else b10);
          b12 = (if have_gwy route
                 then sstp_route_addattr b11 RTA_GATEWAY (rt_blen route) (gwy route)
                 else b11);
          b13 = (if have_oif route
                 then sstp_route_addattr b12 RTA_OIF 4 (le32 (oif route))
                 else b12)
      in (sint (nlmsg_len b13), ctx1\<lparr>buf := b13\<rparr>))"

text \<open>
  \<^verbatim>\<open>sstp_route_replace\<close> and \<^verbatim>\<open>sstp_route_delete\<close> of the protocol backend. The
  result is the return value, the session, \<^verbatim>\<open>errno\<close> and the results of \<^verbatim>\<open>recv\<close>
  not consumed.
\<close>

definition sstp_route_replace ::
  "int \<Rightarrow> sstp_route_ctx \<Rightarrow> sstp_route \<Rightarrow> send_result \<Rightarrow> int \<Rightarrow> recv_result list \<Rightarrow>
     (int \<times> sstp_route_ctx \<times> int \<times> recv_result list) option" where
  "sstp_route_replace pid ctx route sr eno evs =
     (case sstp_route_newmsg pid ctx route RTM_NEWROUTE (NLM_F_CREATE OR NLM_F_REPLACE) of
        (n, ctx1) \<Rightarrow>
          if n < 0 then Some (- 1, ctx1, eno, evs)
          else (case sstp_route_talk pid ctx1 n sr eno evs of
                  None \<Rightarrow> None
                | Some (k, ctx2, eno2, evs2) \<Rightarrow>
                    if k < 0 then Some (- 1, ctx2, eno2, evs2)
                    else Some (0, ctx2, eno2, evs2)))"

definition sstp_route_delete ::
  "int \<Rightarrow> sstp_route_ctx \<Rightarrow> sstp_route \<Rightarrow> send_result \<Rightarrow> int \<Rightarrow> recv_result list \<Rightarrow>
     (int \<times> sstp_route_ctx \<times> int \<times> recv_result list) option" where
  "sstp_route_delete pid ctx route sr eno evs =
     (case sstp_route_newmsg pid ctx route RTM_DELROUTE 0 of
        (n, ctx1) \<Rightarrow>
          if n < 0 then Some (- 1, ctx1, eno, evs)
          else (case sstp_route_talk pid ctx1 n sr eno evs of
                  None \<Rightarrow> None
                | Some (k, ctx2, eno2, evs2) \<Rightarrow>
                    if k < 0 then Some (- 1, ctx2, eno2, evs2)
                    else Some (0, ctx2, eno2, evs2)))"

section \<open>Route lookup\<close>

text \<open>
  \<^verbatim>\<open>struct sockaddr\<close>: the family, then the bytes after it. \<^verbatim>\<open>sin_addr\<close> of
  \<^verbatim>\<open>struct sockaddr_in\<close> is at offset 4 of the structure, \<^verbatim>\<open>sin6_addr\<close> of
  \<^verbatim>\<open>struct sockaddr_in6\<close> at offset 8, which are offsets 2 and 6 of \<open>sa_data\<close>.
\<close>

record sockaddr =
  sa_family :: "16 word"
  sa_data :: "byte list"

definition sin_addr :: "sockaddr \<Rightarrow> byte list" where "sin_addr a = drop 2 (sa_data a)"
definition sin6_addr :: "sockaddr \<Rightarrow> byte list" where "sin6_addr a = drop 6 (sa_data a)"

text \<open>The request that \<^verbatim>\<open>sstp_route_get\<close> builds in the session buffer before it talks.\<close>

definition sstp_route_get_request :: "int \<Rightarrow> sstp_route_ctx \<Rightarrow> sockaddr \<Rightarrow> sstp_route_ctx" where
  "sstp_route_get_request pid ctx dest =
     (let b0 = replicate 1024 0;
          b1 = put_bytes 0 (le32 (NLMSG_LENGTH sizeof_rtmsg)) b0;
          b2 = put_bytes 4 (le16 (word_of_int RTM_GETROUTE)) b1;
          b3 = put_bytes 6 (le16 NLM_F_REQUEST) b2;
          ctx1 = ctx\<lparr>seq := seq ctx + 1\<rparr>;
          b4 = put_bytes 8 (le32 (word_of_int (seq ctx1))) b3;
          b5 = put_bytes 12 (le32 (word_of_int pid)) b4;
          b6 = put_bytes NLMSG_DATA [ucast (sa_family dest)] b5;
          b7 = put_bytes (NLMSG_DATA + 4) [RT_TABLE_MAIN] b6;
          b8 = (if uint (sa_family dest) = AF_INET
                then put_bytes (NLMSG_DATA + 1) [32]
                       (sstp_route_addattr b7 RTA_DST 4 (sin_addr dest))
                else if uint (sa_family dest) = AF_INET6
                then put_bytes (NLMSG_DATA + 1) [128]
                       (sstp_route_addattr b7 RTA_DST 16 (sin6_addr dest))
                else b7)
      in ctx1\<lparr>buf := b8\<rparr>)"

text \<open>
  \<^verbatim>\<open>RTA_OK(rta, len)\<close> and the step of \<^verbatim>\<open>RTA_NEXT(rta, len)\<close>. \<open>rtl\<close> is an \<^verbatim>\<open>int\<close>;
  the aligned length taken from it is at most 65536.
\<close>

definition RTA_OK :: "byte list \<Rightarrow> nat \<Rightarrow> int \<Rightarrow> bool" where
  "RTA_OK b rta rtl \<longleftrightarrow>
     rtl \<ge> sizeof_rtattr \<and> uint (rta_len b rta) \<ge> sizeof_rtattr \<and> uint (rta_len b rta) \<le> rtl"

definition rta_step :: "byte list \<Rightarrow> nat \<Rightarrow> nat" where
  "rta_step b rta = unat (RTA_ALIGN (ucast (rta_len b rta)))"

definition RTA_PAYLOAD :: "byte list \<Rightarrow> nat \<Rightarrow> int" where
  "RTA_PAYLOAD b rta = uint (rta_len b rta) - uint (RTA_LENGTH 0)"

text \<open>\<^verbatim>\<open>memset(route, 0, sizeof(sstp_route_st))\<close>: every byte of the structure is 0.\<close>

definition route_zero :: "sstp_route \<Rightarrow> sstp_route" where
  "route_zero route =
     \<lparr>have_oif = False, have_src = False, have_gwy = False, have_dst = False,
      family = 0, rt_blen = 0,
      gwy = replicate (length (gwy route)) 0,
      dst = replicate (length (dst route)) 0,
      src = replicate (length (src route)) 0,
      oif = 0, ifname = []\<rparr>"

text \<open>
  The body of the attribute loop, a \<^verbatim>\<open>switch\<close> on \<^verbatim>\<open>rta->rta_type\<close> with no default,
  on the route structure and \<^verbatim>\<open>errno\<close>. \<open>ifn\<close> is \<^verbatim>\<open>if_indextoname\<close>: the name of
  an interface index, or, when the call fails, the \<^verbatim>\<open>errno\<close> it sets (\<^verbatim>\<open>ENXIO\<close> when
  no interface has the index); a failed call leaves the name buffer as it was, and a
  call that succeeds is taken to leave \<^verbatim>\<open>errno\<close> as it was. The index
  it is given is the \<^verbatim>\<open>int\<close> read at \<^verbatim>\<open>RTA_DATA(rta)\<close>, four bytes whatever the
  payload's length.

  Each \<^verbatim>\<open>memcpy\<close> writes \<^verbatim>\<open>RTA_PAYLOAD(rta)\<close> bytes from the start of the field. An
  address field is an array of as many bytes as its list has, the index an \<^verbatim>\<open>int\<close> of
  four bytes. A payload longer than its field makes \<^verbatim>\<open>memcpy\<close> write past the field's
  end, and an index read that reaches past the end of the buffer reads outside the
  session: the C language gives these no meaning, and the result is \<open>None\<close>.
\<close>

definition get_attr ::
  "(int \<Rightarrow> int + string) \<Rightarrow> byte list \<Rightarrow> nat \<Rightarrow> sstp_route \<Rightarrow> int \<Rightarrow>
     (sstp_route \<times> int) option" where
  "get_attr ifn b rta route eno =
     (let ty = uint (rta_type b rta);
          n = RTA_PAYLOAD b rta;
          payload = bytes_at b (RTA_DATA rta) (nat n)
      in if ty = RTA_OIF then
           (if length b < RTA_DATA rta + 4 \<or> 4 < n then None
            else
              (let res = ifn (sint (get_u32 b (RTA_DATA rta)));
                   r1 = (case res of Inl e \<Rightarrow> route | Inr nm \<Rightarrow> route\<lparr>ifname := nm\<rparr>);
                   eno1 = (case res of Inl e \<Rightarrow> e | Inr nm \<Rightarrow> eno)
               in Some (r1\<lparr>oif := get_u32 (put_bytes 0 payload (le32 (oif r1))) 0,
                             have_oif := True\<rparr>, eno1)))
         else if ty = RTA_GATEWAY then
           (if int (length (gwy route)) < n then None
            else Some (route\<lparr>gwy := put_bytes 0 payload (gwy route), have_gwy := True\<rparr>, eno))
         else if ty = RTA_PREFSRC then
           (if int (length (src route)) < n then None
            else Some (route\<lparr>src := put_bytes 0 payload (src route), have_src := True\<rparr>, eno))
         else if ty = RTA_DST then
           (if int (length (dst route)) < n then None
            else Some (route\<lparr>dst := put_bytes 0 payload (dst route), have_dst := True\<rparr>, eno))
         else Some (route, eno))"

text \<open>
  The alignment macros clear the two low bits of \<open>n + 3\<close>; on the unsigned value that
  is rounding \<open>n + 3\<close> down to a multiple of 4. The attribute loop below ends because
  of it.
\<close>

lemma and_not_3: "(w :: 32 word) AND NOT 3 = push_bit 2 (drop_bit 2 w)"
proof -
  have m: "(3 :: 32 word) = mask 2" by (simp add: mask_eq_exp_minus_1)
  have s: "\<not> n < 2 \<Longrightarrow> Suc (Suc (n - 2)) = n" for n by simp
  show ?thesis unfolding m
    by (rule bit_word_eqI) (auto simp: bit_simps s not_less)
qed

lemma unat_and_not_3: "unat ((w :: 32 word) AND NOT 3) = unat w div 4 * 4"
proof -
  have "unat w div 4 * 4 \<le> unat w" by simp
  moreover have "unat w < 2 ^ 32" using unsigned_less [of w] by simp
  ultimately have lt: "unat w div 4 * 4 < 2 ^ 32" by linarith
  have "unat (push_bit 2 (drop_bit 2 w)) = unat w div 4 * 4"
    using lt
    by (simp add: push_bit_eq_mult drop_bit_eq_div unat_word_ariths unat_div mult.commute)
  then show ?thesis by (simp only: and_not_3)
qed

lemma rta_step_eq: "rta_step b rta = (unat (rta_len b rta) + 3) div 4 * 4"
proof -
  have lt: "unat (rta_len b rta) < 2 ^ 16" using unsigned_less [of "rta_len b rta"] by simp
  have "unat (ucast (rta_len b rta) :: 32 word) = unat (rta_len b rta)"
    using lt by (simp add: unsigned_ucast_eq take_bit_nat_eq_self)
  then have "unat (ucast (rta_len b rta) + 3 :: 32 word) = unat (rta_len b rta) + 3"
    using lt by (simp add: unat_word_ariths)
  then show ?thesis by (simp only: rta_step_def RTA_ALIGN_def unat_and_not_3)
qed

text \<open>\<^verbatim>\<open>for ( ; RTA_OK(rta,rtl); rta = RTA_NEXT(rta,rtl))\<close> of \<^verbatim>\<open>sstp_route_get\<close>.\<close>

function get_attrs ::
  "(int \<Rightarrow> int + string) \<Rightarrow> byte list \<Rightarrow> nat \<Rightarrow> int \<Rightarrow> sstp_route \<Rightarrow> int \<Rightarrow>
     (sstp_route \<times> int) option" where
  "get_attrs ifn b rta rtl route eno =
     (if RTA_OK b rta rtl
      then (case get_attr ifn b rta route eno of
              None \<Rightarrow> None
            | Some (route1, eno1) \<Rightarrow>
                get_attrs ifn b (rta + rta_step b rta) (rtl - int (rta_step b rta)) route1 eno1)
      else Some (route, eno))"
  by pat_completeness auto

lemma RTA_OK_step:
  assumes "RTA_OK b rta rtl"
  shows "4 \<le> rta_step b rta" and "4 \<le> rtl"
proof -
  from assms have u: "4 \<le> uint (rta_len b rta)" and r: "4 \<le> rtl"
    by (simp_all add: RTA_OK_def)
  have "int (unat (rta_len b rta)) = uint (rta_len b rta)" by (rule uint_nat [symmetric])
  with u have "4 \<le> unat (rta_len b rta)" by linarith
  then show "4 \<le> rta_step b rta" by (simp add: rta_step_eq)
  show "4 \<le> rtl" by (rule r)
qed

termination get_attrs
proof (relation "measure (\<lambda>(ifn, b, rta, rtl, route, eno). nat rtl)")
  show "wf (measure (\<lambda>(ifn, b, rta, rtl, route, eno). nat rtl))" by simp
next
  fix ifn :: "int \<Rightarrow> int + string" and b rta rtl and route route1 :: sstp_route
    and eno eno1 :: int
  assume "RTA_OK b rta rtl"
  then show "((ifn, b, rta + rta_step b rta, rtl - int (rta_step b rta), route1, eno1),
              (ifn, b, rta, rtl, route, eno))
             \<in> measure (\<lambda>(ifn, b, rta, rtl, route, eno). nat rtl)"
    using RTA_OK_step [of b rta rtl] by simp
qed

declare get_attrs.simps [simp del]

text \<open>
  The same loop with an empty body: the offsets of the attributes it visits, in order.
  \<open>rta_attrs\<close> reads the region the way \<^verbatim>\<open>sstp_route_get\<close> does, from \<^verbatim>\<open>RTM_RTA\<close>
  for \<^verbatim>\<open>RTM_PAYLOAD\<close> bytes, and gives each attribute's type with its payload, the
  \<^verbatim>\<open>RTA_PAYLOAD(rta)\<close> bytes at \<^verbatim>\<open>RTA_DATA(rta)\<close>.
\<close>

function rta_walk :: "byte list \<Rightarrow> nat \<Rightarrow> int \<Rightarrow> nat list" where
  "rta_walk b rta rtl =
     (if RTA_OK b rta rtl
      then rta # rta_walk b (rta + rta_step b rta) (rtl - int (rta_step b rta))
      else [])"
  by pat_completeness auto

termination rta_walk
proof (relation "measure (\<lambda>(b, rta, rtl). nat rtl)")
  show "wf (measure (\<lambda>(b, rta, rtl). nat rtl))" by simp
next
  fix b rta rtl
  assume "RTA_OK b rta rtl"
  then show "((b, rta + rta_step b rta, rtl - int (rta_step b rta)), (b, rta, rtl))
              \<in> measure (\<lambda>(b, rta, rtl). nat rtl)"
    using RTA_OK_step [of b rta rtl] by simp
qed

declare rta_walk.simps [simp del]

text \<open>
  \<^verbatim>\<open>sstp_route_get(ctx, dst, route)\<close> of the protocol backend. \<^verbatim>\<open>RTM_RTA(rtm)\<close> is
  \<^verbatim>\<open>NLMSG_ALIGN(sizeof(struct rtmsg))\<close> bytes after the body's start, and
  \<^verbatim>\<open>RTM_PAYLOAD(nlh)\<close> is \<^verbatim>\<open>nlmsg_len - NLMSG_SPACE(sizeof(struct rtmsg))\<close>, stored
  in an \<^verbatim>\<open>int\<close>. The result is the return value, the caller's route structure, the
  session, \<^verbatim>\<open>errno\<close> and the results of \<^verbatim>\<open>recv\<close> not consumed; it is \<open>None\<close> when
  \<^verbatim>\<open>recv\<close> never returns and when the attribute loop writes past a field of the route.
\<close>

definition RTM_RTA :: "nat" where
  "RTM_RTA = NLMSG_DATA + unat (NLMSG_ALIGN (word_of_int sizeof_rtmsg))"

definition RTM_PAYLOAD :: "byte list \<Rightarrow> int" where
  "RTM_PAYLOAD b = sint (nlmsg_len b - NLMSG_SPACE sizeof_rtmsg)"

definition sstp_route_get ::
  "int \<Rightarrow> (int \<Rightarrow> int + string) \<Rightarrow> sstp_route_ctx \<Rightarrow> sockaddr \<Rightarrow> sstp_route \<Rightarrow>
     send_result \<Rightarrow> int \<Rightarrow> recv_result list \<Rightarrow>
     (int \<times> sstp_route \<times> sstp_route_ctx \<times> int \<times> recv_result list) option" where
  "sstp_route_get pid ifn ctx dest route sr eno evs =
     (let ctx1 = sstp_route_get_request pid ctx dest
      in case sstp_route_talk pid ctx1 (sint (nlmsg_len (buf ctx1))) sr eno evs of
           None \<Rightarrow> None
         | Some (n, ctx2, eno2, evs2) \<Rightarrow>
             if n < 0 then Some (- 1, route, ctx2, eno2, evs2)
             else if \<not> NLMSG_OK (buf ctx2) n then Some (- 1, route, ctx2, eno2, evs2)
             else if uint (rtm_family (buf ctx2)) \<noteq> AF_INET \<and>
                     uint (rtm_family (buf ctx2)) \<noteq> AF_INET6
               then Some (- 1, route, ctx2, eno2, evs2)
             else
               (let r0 = route_zero route;
                    r1 = r0\<lparr>family := uint (rtm_family (buf ctx2))\<rparr>;
                    r2 = r1\<lparr>rt_blen := (if uint (rtm_family (buf ctx2)) = AF_INET6
                                          then 16 else 4)\<rparr>
                in case get_attrs ifn (buf ctx2) RTM_RTA (RTM_PAYLOAD (buf ctx2)) r2 eno2 of
                     None \<Rightarrow> None
                   | Some (r3, eno3) \<Rightarrow> Some (0, r3, ctx2, eno3, evs2)))"

definition rta_attrs :: "byte list \<Rightarrow> (int \<times> byte list) list" where
  "rta_attrs b =
     map (\<lambda>rta. (uint (rta_type b rta), bytes_at b (RTA_DATA rta) (nat (RTA_PAYLOAD b rta))))
       (rta_walk b RTM_RTA (RTM_PAYLOAD b))"

definition rta_lens :: "byte list \<Rightarrow> int list" where
  "rta_lens b = map (\<lambda>rta. uint (rta_len b rta)) (rta_walk b RTM_RTA (RTM_PAYLOAD b))"

text \<open>
  The spec's words for a message: the attributes that a route asks for are those whose
  presence flag is set, each with its type and the bytes of its field (\<open>rt_blen\<close> bytes
  of an address, the four bytes of the interface index); an attribute of \<open>n\<close> payload
  bytes declares the length \<open>4 + n\<close> and takes that length padded to the alignment
  unit of 4. The data model's invariant of a route: \<open>rt_blen\<close> is 4 for IPv4 and 16 for
  IPv6, and each address field holds that many bytes.
\<close>

definition spec_route_attrs :: "sstp_route \<Rightarrow> (int \<times> byte list) list" where
  "spec_route_attrs route =
     (if have_dst route then [(RTA_DST, take (nat (rt_blen route)) (dst route))] else []) @
     (if have_src route then [(RTA_PREFSRC, take (nat (rt_blen route)) (src route))] else []) @
     (if have_gwy route then [(RTA_GATEWAY, take (nat (rt_blen route)) (gwy route))] else []) @
     (if have_oif route then [(RTA_OIF, le32 (oif route))] else [])"

definition attr_space :: "nat \<Rightarrow> nat" where
  "attr_space n = (n + 7) div 4 * 4"

definition attrs_space :: "(int \<times> byte list) list \<Rightarrow> nat" where
  "attrs_space as = sum_list (map (\<lambda>a. attr_space (length (snd a))) as)"

definition valid_route :: "sstp_route \<Rightarrow> bool" where
  "valid_route route \<longleftrightarrow>
     (family route = AF_INET \<and> rt_blen route = 4 \<or>
      family route = AF_INET6 \<and> rt_blen route = 16) \<and>
     nat (rt_blen route) \<le> length (dst route) \<and>
     nat (rt_blen route) \<le> length (src route) \<and>
     nat (rt_blen route) \<le> length (gwy route)"

text \<open>The buffer holds the attributes \<open>as\<close>, one after the other, from offset \<open>off\<close>.\<close>

fun attrs_at :: "byte list \<Rightarrow> nat \<Rightarrow> (int \<times> byte list) list \<Rightarrow> bool" where
  "attrs_at b off [] = True"
| "attrs_at b off (a # as) =
     (rta_len b off = word_of_nat (4 + length (snd a)) \<and>
      uint (rta_type b off) = fst a \<and>
      bytes_at b (off + 4) (length (snd a)) = snd a \<and>
      attrs_at b (off + attr_space (length (snd a))) as)"

text \<open>
  A message under construction: the buffer, its declared length, and the attributes
  appended so far.
\<close>

definition msg_inv :: "byte list \<Rightarrow> (int \<times> byte list) list \<Rightarrow> bool" where
  "msg_inv b as \<longleftrightarrow>
     length b = 1024 \<and> nlmsg_len b = word_of_nat (28 + attrs_space as) \<and> attrs_at b 28 as"

text \<open>
  The payloads of the attributes of one type, in order; and the body of the attribute
  loop of \<^verbatim>\<open>sstp_route_get\<close> on an attribute given by its type and payload, when the
  payload fits the field it is copied to: what it leaves in the route, and in
  \<^verbatim>\<open>errno\<close>. A payload fits when an interface index has the four bytes of an \<^verbatim>\<open>int\<close>,
  and when an address is no longer than its field and than the 16 bytes of an IPv6
  address.
\<close>

definition attr_of :: "int \<Rightarrow> (int \<times> byte list) list \<Rightarrow> byte list list" where
  "attr_of ty as = map snd (filter (\<lambda>a. fst a = ty) as)"

definition attr_fits :: "sstp_route \<Rightarrow> int \<times> byte list \<Rightarrow> bool" where
  "attr_fits route a =
     (if fst a = RTA_OIF then length (snd a) = 4
      else if fst a = RTA_GATEWAY then length (snd a) \<le> min 16 (length (gwy route))
      else if fst a = RTA_PREFSRC then length (snd a) \<le> min 16 (length (src route))
      else if fst a = RTA_DST then length (snd a) \<le> min 16 (length (dst route))
      else True)"

definition decode_attr ::
  "(int \<Rightarrow> int + string) \<Rightarrow> int \<times> byte list \<Rightarrow> sstp_route \<Rightarrow> sstp_route" where
  "decode_attr ifn a route =
     (if fst a = RTA_OIF then
        (let r1 = (case ifn (sint (get_u32 (snd a) 0)) of
                     Inl e \<Rightarrow> route
                   | Inr nm \<Rightarrow> route\<lparr>ifname := nm\<rparr>)
         in r1\<lparr>oif := get_u32 (put_bytes 0 (snd a) (le32 (oif r1))) 0, have_oif := True\<rparr>)
      else if fst a = RTA_GATEWAY then
        route\<lparr>gwy := put_bytes 0 (snd a) (gwy route), have_gwy := True\<rparr>
      else if fst a = RTA_PREFSRC then
        route\<lparr>src := put_bytes 0 (snd a) (src route), have_src := True\<rparr>
      else if fst a = RTA_DST then
        route\<lparr>dst := put_bytes 0 (snd a) (dst route), have_dst := True\<rparr>
      else route)"

definition decode_errno :: "(int \<Rightarrow> int + string) \<Rightarrow> int \<times> byte list \<Rightarrow> int \<Rightarrow> int" where
  "decode_errno ifn a eno =
     (if fst a = RTA_OIF
      then (case ifn (sint (get_u32 (snd a) 0)) of Inl e \<Rightarrow> e | Inr nm \<Rightarrow> eno)
      else eno)"

section \<open>Opening and closing the session\<close>

text \<open>
  What \<^verbatim>\<open>sstp_route_init\<close> and \<^verbatim>\<open>sstp_route_done\<close> act on: the sessions that are
  allocated, by address; the descriptors that are open; and the calls of \<^verbatim>\<open>close\<close>
  made so far.
\<close>

record os_state =
  ctxs :: "nat \<Rightarrow> sstp_route_ctx option"
  open_fds :: "int set"
  close_calls :: "int list"

definition os_close :: "int \<Rightarrow> os_state \<Rightarrow> os_state" where
  "os_close fd os = os\<lparr>open_fds := open_fds os - {fd}, close_calls := close_calls os @ [fd]\<rparr>"

definition os_free :: "nat \<Rightarrow> os_state \<Rightarrow> os_state" where
  "os_free p os = os\<lparr>ctxs := (ctxs os)(p := None)\<rparr>"

text \<open>
  \<^verbatim>\<open>sstp_route_init(ctx)\<close>. \<open>r\<close> is what \<^verbatim>\<open>calloc\<close> returns (\<open>None\<close> for
  \<^verbatim>\<open>NULL\<close>), \<open>fd\<close> what \<^verbatim>\<open>socket\<close> returns, and \<open>cp\<close> the caller's pointer
  \<^verbatim>\<open>*ctx\<close>, which is written on success only. The result is the return value, the
  caller's pointer and the state.
\<close>

definition sstp_route_init ::
  "nat option \<Rightarrow> int \<Rightarrow> nat option \<Rightarrow> os_state \<Rightarrow> int \<times> nat option \<times> os_state" where
  "sstp_route_init r fd cp os =
     (case r of
        None \<Rightarrow> (- 1, cp, os)
      | Some p \<Rightarrow>
          (let c = \<lparr>sock = fd, seq = 0, len = 0, buf = replicate 1024 0\<rparr>;
               os1 = os\<lparr>ctxs := (ctxs os)(p \<mapsto> c),
                        open_fds := (if fd < 0 then open_fds os else insert fd (open_fds os))\<rparr>
           in if sock c < 0
              then (- 1, cp, os_free p (if sock c \<noteq> 0 then os_close (sock c) os1 else os1))
              else (0, Some p, os1)))"

text \<open>
  \<^verbatim>\<open>sstp_route_done(ctx)\<close>. The handle is a pointer passed by value. \<open>None\<close> as the
  result is undefined behaviour: the function reads \<^verbatim>\<open>ctx->sock\<close> and frees \<open>ctx\<close>,
  and neither is defined for a pointer to a session that is not allocated.
\<close>

definition sstp_route_done :: "nat option \<Rightarrow> os_state \<Rightarrow> os_state option" where
  "sstp_route_done cp os =
     (case cp of
        None \<Rightarrow> Some os
      | Some p \<Rightarrow>
          (case ctxs os p of
             None \<Rightarrow> None
           | Some c \<Rightarrow>
               (let os1 = (if sock c > 0
                           then (os_close (sock c) os)\<lparr>ctxs := (ctxs os)(p \<mapsto> c\<lparr>sock := 0\<rparr>)\<rparr>
                           else os)
                in Some (os_free p os1))))"

section \<open>The shell fallback backend\<close>

text \<open>
  Modelled from the spec: the structure \<^verbatim>\<open>sstp_route_st\<close> of the shell backend; its
  declaration is missing. The code uses the one field \<^verbatim>\<open>ipcmd\<close>, a character
  array that holds the textual route description.
\<close>

record sh_route =
  ipcmd :: string

text \<open>
  \<open>popen\<close> gives the output of the child for a command line, or \<open>None\<close> when the
  child cannot be created. \<^verbatim>\<open>snprintf(cmd, sizeof(cmd), ...)\<close> keeps 254 characters.
  The result of an operation is its return value; \<open>None\<close> is the end of the function
  body reached with no \<^verbatim>\<open>return\<close> statement, where the value the caller gets is
  undefined.
\<close>

definition sh_route_replace :: "(string \<Rightarrow> string option) \<Rightarrow> sh_route \<Rightarrow> int option" where
  "sh_route_replace popen route =
     (let cmd = take 254 (''ip route replace '' @ ipcmd route)
      in case popen cmd of
           None \<Rightarrow> Some (- 1)
         | Some out \<Rightarrow> None)"

definition sh_route_delete :: "(string \<Rightarrow> string option) \<Rightarrow> sh_route \<Rightarrow> int option" where
  "sh_route_delete popen route =
     (let cmd = take 254 (''ip route delete '' @ ipcmd route)
      in case popen cmd of
           None \<Rightarrow> Some (- 1)
         | Some out \<Rightarrow> None)"

text \<open>
  \<^verbatim>\<open>sstp_ipaddr(addr, buf, len)\<close>, with \<open>ntop\<close> for \<^verbatim>\<open>inet_ntop\<close>: the text of an
  address of a family, or \<open>None\<close> when it fails.
\<close>

definition sstp_ipaddr :: "(int \<Rightarrow> byte list \<Rightarrow> string option) \<Rightarrow> sockaddr \<Rightarrow> string option" where
  "sstp_ipaddr ntop addr =
     (if uint (sa_family addr) = AF_INET then ntop AF_INET (take 4 (sin_addr addr))
      else if uint (sa_family addr) = AF_INET6 then ntop AF_INET6 (take 16 (sin6_addr addr))
      else None)"

text \<open>
  \<^verbatim>\<open>fgets(s, size, stream)\<close> on the output of the child: \<open>None\<close> (\<^verbatim>\<open>NULL\<close>) when
  there is nothing to read, else the characters up to and with the first newline, at
  most \<open>size - 1\<close> of them.
\<close>

fun first_line :: "string \<Rightarrow> string" where
  "first_line [] = []"
| "first_line (c # cs) = (if c = CHR 0x0A then [c] else c # first_line cs)"

definition fgets :: "nat \<Rightarrow> string \<Rightarrow> string option" where
  "fgets sz out = (if out = [] then None else Some (take (sz - 1) (first_line out)))"

text \<open>
  \<^verbatim>\<open>sstp_route_get\<close> of the shell backend; \<open>sz\<close> is \<^verbatim>\<open>sizeof(route->ipcmd)\<close>. The
  result is the return value and the caller's route structure.
\<close>

definition sh_route_get ::
  "(int \<Rightarrow> byte list \<Rightarrow> string option) \<Rightarrow> (string \<Rightarrow> string option) \<Rightarrow> nat \<Rightarrow>
     sockaddr \<Rightarrow> sh_route \<Rightarrow> int \<times> sh_route" where
  "sh_route_get ntop popen sz dest route =
     (case sstp_ipaddr ntop dest of
        None \<Rightarrow> (- 1, route)
      | Some ip \<Rightarrow>
          (let cmd = take 254 (''ip route get '' @ ip)
           in case popen cmd of
                None \<Rightarrow> (- 1, route)
              | Some out \<Rightarrow>
                  (case fgets sz out of
                     None \<Rightarrow> (- 1, route)
                   | Some ln \<Rightarrow> (0, route\<lparr>ipcmd := ln\<rparr>))))"

text \<open>\<^verbatim>\<open>sstp_route_init\<close> and \<^verbatim>\<open>sstp_route_done\<close> of the shell backend do nothing.\<close>

definition sh_route_init :: "int" where
  "sh_route_init = 0"

section \<open>Example sessions and messages\<close>

text \<open>The bytes of a \<^verbatim>\<open>struct nlmsghdr\<close> and of one attribute with its padding.\<close>

definition nlmsghdr_bytes ::
  "32 word \<Rightarrow> 16 word \<Rightarrow> 16 word \<Rightarrow> 32 word \<Rightarrow> 32 word \<Rightarrow> byte list" where
  "nlmsghdr_bytes l t f s p = le32 l @ le16 t @ le16 f @ le32 s @ le32 p"

definition rtattr_bytes :: "16 word \<Rightarrow> byte list \<Rightarrow> byte list" where
  "rtattr_bytes t p =
     le16 (word_of_nat (4 + length p)) @ le16 t @ p @ replicate ((4 - length p mod 4) mod 4) 0"

text \<open>
  Process 100 has opened a session on descriptor 3 and asks for the route to 4.4.2.2;
  \<open>ex_ctx\<close> is the session when the request, of sequence number 1, has been built.
\<close>

definition ex_dest :: sockaddr where
  "ex_dest = \<lparr>sa_family = 2, sa_data = [0, 0, 4, 4, 2, 2, 0, 0, 0, 0, 0, 0, 0, 0]\<rparr>"

definition ex_ctx0 :: sstp_route_ctx where
  "ex_ctx0 = \<lparr>sock = 3, seq = 0, len = 0, buf = replicate 1024 0\<rparr>"

definition ex_ctx :: sstp_route_ctx where
  "ex_ctx = sstp_route_get_request 100 ex_ctx0 ex_dest"

text \<open>
  A route message for another request (sequence number 9); an error frame with code
  \<open>-17\<close> for that other request; an acknowledgement (error frame with code 0), an
  error frame with code \<open>-3\<close> and one with code \<open>-2147483648\<close> for this request; one
  part of a multi-part answer to this request, and the message that ends it.
\<close>

definition ex_other :: "byte list" where
  "ex_other = nlmsghdr_bytes 28 24 0 9 100 @ [2, 32, 0, 0, 254, 0, 0, 1, 0, 0, 0, 0]"

definition ex_err_other :: "byte list" where
  "ex_err_other = nlmsghdr_bytes 36 2 0 9 100 @ le32 (- 17) @ nlmsghdr_bytes 28 24 5 9 100"

definition ex_ack :: "byte list" where
  "ex_ack = nlmsghdr_bytes 36 2 0 1 100 @ le32 0 @ nlmsghdr_bytes 36 26 1 1 100"

definition ex_err :: "byte list" where
  "ex_err = nlmsghdr_bytes 36 2 0 1 100 @ le32 (- 3) @ nlmsghdr_bytes 36 26 1 1 100"

definition ex_err_min :: "byte list" where
  "ex_err_min = nlmsghdr_bytes 36 2 0 1 100 @ le32 (- 2147483648) @ nlmsghdr_bytes 36 26 1 1 100"

definition ex_part :: "byte list" where
  "ex_part = nlmsghdr_bytes 36 24 2 1 100 @ [2, 32, 0, 0, 254, 0, 0, 1, 0, 0, 0, 0] @
             rtattr_bytes 1 [4, 4, 2, 2]"

definition ex_done :: "byte list" where
  "ex_done = nlmsghdr_bytes 20 3 2 1 100 @ le32 0"

text \<open>
  A route to 4.4.2.2 through the gateway 10.0.0.1, from 10.0.0.7, on interface 3, with
  every presence flag set; and an IPv6 destination, 2001:db8::1.
\<close>

definition ex_route :: sstp_route where
  "ex_route = \<lparr>have_oif = True, have_src = True, have_gwy = True, have_dst = True,
      family = 2, rt_blen = 4,
      gwy = [10, 0, 0, 1, 0, 0, 0, 0, 0, 0, 0, 0, 0, 0, 0, 0],
      dst = [4, 4, 2, 2, 0, 0, 0, 0, 0, 0, 0, 0, 0, 0, 0, 0],
      src = [10, 0, 0, 7, 0, 0, 0, 0, 0, 0, 0, 0, 0, 0, 0, 0],
      oif = 3, ifname = ''ppp0''\<rparr>"

definition ex_dest6 :: sockaddr where
  "ex_dest6 = \<lparr>sa_family = 10,
      sa_data = [0, 0, 0, 0, 0, 0, 32, 1, 13, 184, 0, 0, 0, 0, 0, 0, 0, 0, 0, 0, 0, 1,
                 0, 0, 0, 0]\<rparr>"

text \<open>
  An answer to the request of \<open>ex_ctx\<close>: a route to 8.8.8.8 with gateway, preferred
  source and output interface 2, and one attribute of a type the code does not know
  (15); an answer whose family is 17; an answer whose gateway attribute has a payload of
  20 bytes; an \<^verbatim>\<open>if_indextoname\<close> that fails for every index and sets \<^verbatim>\<open>errno\<close> to
  \<^verbatim>\<open>ENXIO\<close>, and one that knows the interface 2.
\<close>

definition ex_attrs :: "(int \<times> byte list) list" where
  "ex_attrs = [(RTA_DST, [8, 8, 8, 8]), (15, [254, 0, 0, 0]), (RTA_GATEWAY, [192, 168, 1, 1]),
               (RTA_PREFSRC, [192, 168, 1, 20]), (RTA_OIF, [2, 0, 0, 0])]"

definition ex_resp :: "byte list" where
  "ex_resp = nlmsghdr_bytes 68 24 0 1 100 @ [2, 32, 0, 0, 254, 0, 0, 1, 0, 0, 0, 0] @
             rtattr_bytes 1 [8, 8, 8, 8] @ rtattr_bytes 15 [254, 0, 0, 0] @
             rtattr_bytes 5 [192, 168, 1, 1] @ rtattr_bytes 7 [192, 168, 1, 20] @
             rtattr_bytes 4 [2, 0, 0, 0]"

definition ex_resp_packet :: "byte list" where
  "ex_resp_packet = nlmsghdr_bytes 28 24 0 1 100 @ [17, 0, 0, 0, 254, 0, 0, 1, 0, 0, 0, 0]"

definition ex_resp_long :: "byte list" where
  "ex_resp_long = nlmsghdr_bytes 52 24 0 1 100 @ [2, 32, 0, 0, 254, 0, 0, 1, 0, 0, 0, 0] @
     rtattr_bytes 5 [10, 0, 0, 1, 0, 0, 0, 0, 0, 0, 0, 0, 0, 0, 0, 0, 11, 12, 13, 14]"

definition ex_no_ifname :: "int \<Rightarrow> int + string" where
  "ex_no_ifname i = Inl ENXIO"

definition ex_ifname :: "int \<Rightarrow> int + string" where
  "ex_ifname i = (if i = 2 then Inr ''eth0'' else Inl ENXIO)"

text \<open>
  A process with descriptors 0, 1 and 2 open and no session allocated, and the same
  process with a session at address 7 on descriptor 3; a \<open>popen\<close> that creates the
  child, which prints nothing; and a route description for the shell backend.
\<close>

definition ex_os :: os_state where
  "ex_os = \<lparr>ctxs = (\<lambda>p. None), open_fds = {0, 1, 2}, close_calls = []\<rparr>"

definition ex_os_open :: os_state where
  "ex_os_open =
     ex_os\<lparr>ctxs := (ctxs ex_os)(7 \<mapsto> \<lparr>sock = 3, seq = 0, len = 0, buf = replicate 1024 0\<rparr>),
           open_fds := {0, 1, 2, 3}\<rparr>"

definition ex_popen :: "string \<Rightarrow> string option" where
  "ex_popen cmd = Some []"

definition ex_sh_route :: sh_route where
  "ex_sh_route = \<lparr>ipcmd = ''4.4.2.2 via 10.0.0.1 dev ppp0''\<rparr>"

section \<open>Reading and writing the buffer\<close>

lemma length_put_bytes [simp]: "length (put_bytes off bs b) = length b"
  by (simp add: put_bytes_def)

lemma nth_put_bytes:
  "i < length b \<Longrightarrow>
     put_bytes off bs b ! i = (if off \<le> i \<and> i < off + length bs then bs ! (i - off) else b ! i)"
  by (auto simp: put_bytes_def nth_append)

lemma get_u16_put_bytes_inside:
  "off \<le> i \<Longrightarrow> i + 2 \<le> off + length bs \<Longrightarrow> off + length bs \<le> length b \<Longrightarrow>
     get_u16 (put_bytes off bs b) i = get_u16 bs (i - off)"
  by (simp add: get_u16_def nth_put_bytes Suc_diff_le)

lemma get_u16_put_bytes_outside:
  "i + 2 \<le> off \<or> off + length bs \<le> i \<Longrightarrow> i + 2 \<le> length b \<Longrightarrow>
     get_u16 (put_bytes off bs b) i = get_u16 b i"
  by (auto simp: get_u16_def nth_put_bytes)

lemma get_u32_put_bytes_inside:
  "off \<le> i \<Longrightarrow> i + 4 \<le> off + length bs \<Longrightarrow> off + length bs \<le> length b \<Longrightarrow>
     get_u32 (put_bytes off bs b) i = get_u32 bs (i - off)"
  by (simp add: get_u32_def nth_put_bytes Suc_diff_le)

lemma get_u32_put_bytes_outside:
  "i + 4 \<le> off \<or> off + length bs \<le> i \<Longrightarrow> i + 4 \<le> length b \<Longrightarrow>
     get_u32 (put_bytes off bs b) i = get_u32 b i"
  by (auto simp: get_u32_def nth_put_bytes)

lemma get_u16_le16 [simp]: "get_u16 (le16 v) 0 = v"
  unfolding get_u16_def le16_def
  by (rule bit_word_eqI) (auto simp: bit_simps)

lemma get_u32_le32 [simp]: "get_u32 (le32 v) 0 = v"
  unfolding get_u32_def le32_def
  apply (rule bit_word_eqI)
  apply (auto simp: bit_simps)
  apply (rule ccontr)
  apply (simp add: not_less)
  done

lemma length_le16 [simp]: "length (le16 v) = 2"
  by (simp add: le16_def)

lemma length_le32 [simp]: "length (le32 v) = 4"
  by (simp add: le32_def)

lemma NLMSG_DATA_16 [simp]: "NLMSG_DATA = 16"
  by (simp add: NLMSG_DATA_def NLMSG_HDRLEN_def NLMSG_ALIGN_def)

section \<open>The alignment macros on aligned lengths\<close>

lemma unat_plus_3: "unat (w :: 32 word) + 3 < 2 ^ 32 \<Longrightarrow> unat (w + 3) = unat w + 3"
  by (simp add: unat_word_ariths)

lemma unat_NLMSG_ALIGN:
  "unat w + 3 < 2 ^ 32 \<Longrightarrow> unat (NLMSG_ALIGN w) = (unat w + 3) div 4 * 4"
  by (simp only: NLMSG_ALIGN_def unat_and_not_3 unat_plus_3)

lemma unat_RTA_ALIGN:
  "unat w + 3 < 2 ^ 32 \<Longrightarrow> unat (RTA_ALIGN w) = (unat w + 3) div 4 * 4"
  by (simp only: RTA_ALIGN_def unat_and_not_3 unat_plus_3)

lemma unat_word_of_nat_32: "n < 2 ^ 32 \<Longrightarrow> unat (word_of_nat n :: 32 word) = n"
  by (simp add: unat_of_nat)

lemma word_of_unat: "unat (w :: 32 word) = k \<Longrightarrow> w = word_of_nat k"
  by auto

lemma NLMSG_ALIGN_aligned:
  assumes "L mod 4 = 0" "L < 2 ^ 31"
  shows "NLMSG_ALIGN (word_of_nat L) = word_of_nat L"
proof -
  have u: "unat (word_of_nat L :: 32 word) = L" using assms by (simp add: unat_of_nat)
  have "unat (NLMSG_ALIGN (word_of_nat L)) = (L + 3) div 4 * 4"
    using assms by (subst unat_NLMSG_ALIGN) (simp_all add: u)
  also have "\<dots> = L" using assms(1) by presburger
  finally show ?thesis by (rule word_of_unat)
qed

lemma RTA_LENGTH_nat:
  assumes "0 \<le> n"
  shows "RTA_LENGTH n = word_of_nat (4 + nat n)"
proof -
  have "RTA_ALIGN (word_of_int sizeof_rtattr) = 4" by (simp add: RTA_ALIGN_def)
  moreover have "(word_of_int n :: 32 word) = word_of_nat (nat n)"
    using assms by (simp add: word_of_nat_eq_iff)
  ultimately show ?thesis by (simp add: RTA_LENGTH_def)
qed

lemma RTA_ALIGN_nat:
  assumes "k + 3 < 2 ^ 32"
  shows "RTA_ALIGN (word_of_nat k) = word_of_nat ((k + 3) div 4 * 4)"
proof -
  have u: "unat (word_of_nat k :: 32 word) = k" using assms by (simp add: unat_of_nat)
  have "unat (RTA_ALIGN (word_of_nat k)) = (k + 3) div 4 * 4"
    using assms by (subst unat_RTA_ALIGN) (simp_all add: u)
  then show ?thesis by (rule word_of_unat)
qed

lemma RTA_SPACE_nat:
  assumes "0 \<le> n" "n < 2 ^ 16"
  shows "RTA_SPACE n = word_of_nat ((nat n + 7) div 4 * 4)"
proof -
  have m: "4 + nat n + 3 < 2 ^ 32" using assms by simp
  have "RTA_SPACE n = word_of_nat ((4 + nat n + 3) div 4 * 4)"
    unfolding RTA_SPACE_def RTA_LENGTH_nat [OF assms(1)] by (rule RTA_ALIGN_nat [OF m])
  moreover have "4 + nat n + 3 = nat n + 7" by simp
  ultimately show ?thesis by (simp only:)
qed


section \<open>Appending an attribute\<close>

lemma bytes_at_put_bytes_same:
  "off + length bs \<le> length b \<Longrightarrow> bytes_at (put_bytes off bs b) off (length bs) = bs"
  by (simp add: bytes_at_def put_bytes_def)

lemma bytes_at_cong:
  assumes "off + n \<le> length b'" "off + n \<le> length b"
    and "\<And>i. off \<le> i \<Longrightarrow> i < off + n \<Longrightarrow> b' ! i = b ! i"
  shows "bytes_at b' off n = bytes_at b off n"
  using assms by (auto simp: bytes_at_def intro!: nth_equalityI)

lemma get_u16_cong:
  assumes "b' ! i = b ! i" "b' ! (i + 1) = b ! (i + 1)"
  shows "get_u16 b' i = get_u16 b i"
  using assms by (simp add: get_u16_def)

lemma RTA_DATA_4 [simp]: "RTA_DATA rta = rta + 4"
  by (simp add: RTA_DATA_def RTA_LENGTH_def RTA_ALIGN_def)

lemma ucast_32_16_of_nat: "(ucast (word_of_nat k :: 32 word) :: 16 word) = word_of_nat k"
  by (rule bit_word_eqI) (auto simp: bit_simps)

lemma sstp_route_addattr_props:
  assumes len: "length b = 1024"
    and L: "nlmsg_len b = word_of_nat L" "L mod 4 = 0" "4 \<le> L"
    and n: "0 \<le> n" "L + 4 + nat n \<le> 1024"
  shows "length (sstp_route_addattr b ty n val) = 1024"
    and "nlmsg_len (sstp_route_addattr b ty n val) = word_of_nat (L + (nat n + 7) div 4 * 4)"
    and "rta_len (sstp_route_addattr b ty n val) L = word_of_nat (4 + nat n)"
    and "rta_type (sstp_route_addattr b ty n val) L = word_of_int ty"
    and "nat n \<le> length val \<Longrightarrow>
           bytes_at (sstp_route_addattr b ty n val) (L + 4) (nat n) = take (nat n) val"
    and "\<And>i. 4 \<le> i \<Longrightarrow> i < L \<Longrightarrow> sstp_route_addattr b ty n val ! i = b ! i"
proof -
  have L31: "L < 2 ^ 31" using n by simp
  have n16: "n < 2 ^ 16" using n by simp
  have al: "NLMSG_ALIGN (word_of_nat L) = word_of_nat L"
    using L(2) L31 by (rule NLMSG_ALIGN_aligned)
  have tail: "NLMSG_TAIL b = L"
    using L31 by (simp add: NLMSG_TAIL_def L(1) al unat_of_nat)
  have rl: "(ucast (RTA_LENGTH n) :: 16 word) = word_of_nat (4 + nat n)"
    by (simp only: RTA_LENGTH_nat [OF n(1)] ucast_32_16_of_nat)
  define b1 where "b1 = put_bytes (L + 2) (le16 (word_of_int ty)) b"
  define b2 where "b2 = put_bytes L (le16 (ucast (RTA_LENGTH n))) b1"
  define b3 where "b3 = put_bytes 0 (le32 (NLMSG_ALIGN (nlmsg_len b2) + RTA_SPACE n)) b2"
  define b4 where "b4 = put_bytes (L + 4) (take (nat n) val) b3"
  have r: "sstp_route_addattr b ty n val = b4"
    by (simp add: sstp_route_addattr_def Let_def tail b1_def b2_def b3_def b4_def)
  have lens: "length b1 = 1024" "length b2 = 1024" "length b3 = 1024" "length b4 = 1024"
    by (simp_all add: b1_def b2_def b3_def b4_def len)
  have l2: "nlmsg_len b2 = word_of_nat L"
    using L(3) n(2) by (simp add: nlmsg_len_def b2_def b1_def get_u32_put_bytes_outside len flip: L(1))
  show "length (sstp_route_addattr b ty n val) = 1024" by (simp add: r lens)
  have "nlmsg_len b4 = NLMSG_ALIGN (nlmsg_len b2) + RTA_SPACE n"
    using L(3) n(2)
    by (simp add: nlmsg_len_def b4_def b3_def get_u32_put_bytes_outside get_u32_put_bytes_inside lens)
  then show "nlmsg_len (sstp_route_addattr b ty n val) = word_of_nat (L + (nat n + 7) div 4 * 4)"
    by (simp add: r l2 al RTA_SPACE_nat [OF n(1) n16])
  have "rta_len b4 L = ucast (RTA_LENGTH n)"
    using L(3) n(2)
    by (simp add: rta_len_def b4_def b3_def b2_def get_u16_put_bytes_outside
        get_u16_put_bytes_inside lens)
  then show "rta_len (sstp_route_addattr b ty n val) L = word_of_nat (4 + nat n)"
    by (simp only: r rl)
  show "rta_type (sstp_route_addattr b ty n val) L = word_of_int ty"
    using L(3) n(2)
    by (simp add: r rta_type_def b4_def b3_def b2_def b1_def get_u16_put_bytes_outside
        get_u16_put_bytes_inside lens len)
  show "bytes_at (sstp_route_addattr b ty n val) (L + 4) (nat n) = take (nat n) val"
    if "nat n \<le> length val"
  proof -
    have "length (take (nat n) val) = nat n" using that by simp
    then show ?thesis
      using n(2) bytes_at_put_bytes_same [of "L + 4" "take (nat n) val" b3]
      by (simp add: r b4_def lens)
  qed
  show "sstp_route_addattr b ty n val ! i = b ! i" if "4 \<le> i" "i < L" for i
    using that n(2)
    by (simp add: r b4_def b3_def b2_def b1_def nth_put_bytes lens len)
qed

lemma attr_space_bounds: "4 + n \<le> attr_space n" "attr_space n mod 4 = 0" "attr_space n \<le> n + 7"
  by (simp_all add: attr_space_def)

lemma attrs_space_simps [simp]:
  "attrs_space [] = 0"
  "attrs_space (a # as) = attr_space (length (snd a)) + attrs_space as"
  "attrs_space (as @ bs) = attrs_space as + attrs_space bs"
  by (simp_all add: attrs_space_def)

lemma attrs_space_mod4: "attrs_space as mod 4 = 0"
proof (induction as)
  case Nil
  show ?case by simp
next
  case (Cons a as)
  have "attr_space (length (snd a)) mod 4 = 0" by (rule attr_space_bounds)
  with Cons show ?case by (simp add: mod_add_eq [symmetric])
qed

lemma unat_word16_of_nat: "k < 65536 \<Longrightarrow> unat (word_of_nat k :: 16 word) = k"
  by (simp add: unat_of_nat)

lemma uint_word16_of_nat: "k < 65536 \<Longrightarrow> uint (word_of_nat k :: 16 word) = int k"
  by (simp only: uint_nat unat_word16_of_nat)

text \<open>The loop visits exactly the attributes that the buffer holds.\<close>

lemma rta_walk_attrs_at:
  assumes "attrs_at b off as" "\<forall>a \<in> set as. length (snd a) \<le> 1024"
  shows "map (\<lambda>rta. (uint (rta_type b rta), bytes_at b (RTA_DATA rta) (nat (RTA_PAYLOAD b rta))))
           (rta_walk b off (int (attrs_space as))) = as \<and>
         map (\<lambda>rta. uint (rta_len b rta)) (rta_walk b off (int (attrs_space as))) =
           map (\<lambda>a. 4 + int (length (snd a))) as"
  using assms
proof (induction as arbitrary: off)
  case Nil
  have "\<not> RTA_OK b off 0" by (simp add: RTA_OK_def)
  then show ?case by (subst rta_walk.simps, subst rta_walk.simps) simp
next
  case (Cons a as)
  let ?n = "length (snd a)"
  from Cons.prems have n: "?n \<le> 1024" by simp
  from Cons.prems have rl: "rta_len b off = word_of_nat (4 + ?n)"
    and ty: "uint (rta_type b off) = fst a"
    and pl: "bytes_at b (off + 4) ?n = snd a"
    and rest: "attrs_at b (off + attr_space ?n) as"
    by simp_all
  have ul: "unat (rta_len b off) = 4 + ?n" unfolding rl using n by (intro unat_word16_of_nat) simp
  have il: "uint (rta_len b off) = 4 + int ?n" unfolding rl using n
    by (subst uint_word16_of_nat) simp_all
  have st: "rta_step b off = attr_space ?n"
    by (simp add: rta_step_eq ul attr_space_def add.commute)
  have sp: "4 + ?n \<le> attr_space ?n" by (rule attr_space_bounds)
  have ok: "RTA_OK b off (int (attrs_space (a # as)))"
    using sp by (simp add: RTA_OK_def il)
  have pay: "nat (RTA_PAYLOAD b off) = ?n"
    by (simp add: RTA_PAYLOAD_def il RTA_LENGTH_def RTA_ALIGN_def)
  have IH: "map (\<lambda>rta. (uint (rta_type b rta), bytes_at b (RTA_DATA rta) (nat (RTA_PAYLOAD b rta))))
           (rta_walk b (off + attr_space ?n) (int (attrs_space as))) = as \<and>
         map (\<lambda>rta. uint (rta_len b rta)) (rta_walk b (off + attr_space ?n) (int (attrs_space as))) =
           map (\<lambda>a. 4 + int (length (snd a))) as"
    using Cons.IH [OF rest] Cons.prems(2) by simp
  have w: "rta_walk b off (int (attrs_space (a # as))) =
           off # rta_walk b (off + attr_space ?n) (int (attrs_space as))"
    using ok by (subst rta_walk.simps) (simp add: st)
  show ?case
    unfolding w using IH by (simp add: ty pl pay il prod_eq_iff)
qed

lemma attrs_at_cong:
  assumes "off + attrs_space as \<le> length b'" "off + attrs_space as \<le> length b"
    and "\<And>i. off \<le> i \<Longrightarrow> i < off + attrs_space as \<Longrightarrow> b' ! i = b ! i"
  shows "attrs_at b' off as = attrs_at b off as"
  using assms
proof (induction as arbitrary: off)
  case Nil
  show ?case by simp
next
  case (Cons a as)
  let ?n = "length (snd a)"
  have sp: "4 + ?n \<le> attr_space ?n" by (rule attr_space_bounds)
  have eq: "b' ! i = b ! i" if "off \<le> i" "i < off + attr_space ?n + attrs_space as" for i
    using Cons.prems(3) [of i] that by simp
  have 1: "rta_len b' off = rta_len b off"
    unfolding rta_len_def using sp by (intro get_u16_cong eq) simp_all
  have 2: "rta_type b' off = rta_type b off"
    unfolding rta_type_def using sp by (intro get_u16_cong eq) simp_all
  have 3: "bytes_at b' (off + 4) ?n = bytes_at b (off + 4) ?n"
    using sp Cons.prems(1,2) by (intro bytes_at_cong eq) simp_all
  have 4: "attrs_at b' (off + attr_space ?n) as = attrs_at b (off + attr_space ?n) as"
    using Cons.prems(1,2) by (intro Cons.IH eq) simp_all
  show ?case by (simp add: 1 2 3 4)
qed

lemma attrs_at_append:
  "attrs_at b off (as @ bs) \<longleftrightarrow> attrs_at b off as \<and> attrs_at b (off + attrs_space as) bs"
  by (induction as arbitrary: off) (auto simp: add.assoc)

lemma uint_word16_of_int: "0 \<le> k \<Longrightarrow> k < 65536 \<Longrightarrow> uint (word_of_int k :: 16 word) = k"
  by (simp add: uint_word_of_int)

lemma addattr_inv:
  assumes inv: "msg_inv b as" and n: "0 \<le> n" "nat n \<le> length val"
    and fit: "28 + attrs_space as + 4 + nat n \<le> 1024"
    and ty: "0 \<le> ty" "ty < 65536"
  shows "msg_inv (sstp_route_addattr b ty n val) (as @ [(ty, take (nat n) val)])"
proof -
  let ?L = "28 + attrs_space as"
  let ?b = "sstp_route_addattr b ty n val"
  from inv have len: "length b = 1024" and nl: "nlmsg_len b = word_of_nat ?L"
    and at: "attrs_at b 28 as"
    by (simp_all add: msg_inv_def)
  have m4: "?L mod 4 = 0" using attrs_space_mod4 [of as] by presburger
  have L4: "4 \<le> ?L" by simp
  have fit': "?L + 4 + nat n \<le> 1024" using fit by simp
  note P = sstp_route_addattr_props [OF len nl m4 L4 n(1) fit', where ty = ty and val = val]
  have tk: "length (take (nat n) val) = nat n" using n(2) by simp
  have mn: "min (length val) (nat n) = nat n" using n(2) by simp
  have "attrs_at ?b 28 as = attrs_at b 28 as"
    using fit by (intro attrs_at_cong P(6)) (simp_all add: P(1) len)
  with at have 1: "attrs_at ?b 28 as" by simp
  have 2: "attrs_at ?b ?L [(ty, take (nat n) val)]"
    using P(5) [OF n(2)] by (simp add: mn P(3) P(4) uint_word16_of_int ty add.assoc)
  have 3: "nlmsg_len ?b = word_of_nat (28 + attrs_space (as @ [(ty, take (nat n) val)]))"
    by (simp only: P(2) attrs_space_simps snd_conv tk attr_space_def add.assoc add_0_right)
  show ?thesis
    unfolding msg_inv_def attrs_at_append using 1 2 3 P(1) by simp
qed

lemma put_body_inv:
  assumes inv: "msg_inv b as" and off: "4 \<le> off" "off + length bs \<le> 28"
    and fit: "28 + attrs_space as \<le> 1024"
  shows "msg_inv (put_bytes off bs b) as"
proof -
  from inv have len: "length b = 1024" and nl: "nlmsg_len b = word_of_nat (28 + attrs_space as)"
    and at: "attrs_at b 28 as"
    by (simp_all add: msg_inv_def)
  have "attrs_at (put_bytes off bs b) 28 as = attrs_at b 28 as"
    using fit off by (intro attrs_at_cong) (simp_all add: len nth_put_bytes)
  moreover have "nlmsg_len (put_bytes off bs b) = nlmsg_len b"
    using off by (simp add: nlmsg_len_def get_u32_put_bytes_outside len)
  ultimately show ?thesis using at nl len by (simp add: msg_inv_def)
qed

lemma NLMSG_LENGTH_rtmsg: "NLMSG_LENGTH sizeof_rtmsg = 28"
  by (simp add: NLMSG_LENGTH_def NLMSG_HDRLEN_def NLMSG_ALIGN_def)

lemma msg_inv_init: "msg_inv (put_bytes 0 (le32 (NLMSG_LENGTH sizeof_rtmsg)) (replicate 1024 0)) []"
  by (simp add: msg_inv_def nlmsg_len_def get_u32_put_bytes_inside NLMSG_LENGTH_rtmsg)

lemma addattr_body:
  assumes inv: "msg_inv b as" and n: "0 \<le> n"
    and fit: "28 + attrs_space as + 4 + nat n \<le> 1024"
    and i: "4 \<le> i" "i < 28"
  shows "sstp_route_addattr b ty n val ! i = b ! i"
proof -
  let ?L = "28 + attrs_space as"
  from inv have len: "length b = 1024" and nl: "nlmsg_len b = word_of_nat ?L"
    by (simp_all add: msg_inv_def)
  have m4: "?L mod 4 = 0" using attrs_space_mod4 [of as] by presburger
  have L4: "4 \<le> ?L" by simp
  have fit': "?L + 4 + nat n \<le> 1024" using fit by simp
  show ?thesis
    using i by (intro sstp_route_addattr_props(6) [OF len nl m4 L4 n fit']) simp_all
qed

lemma valid_route_blen:
  assumes "valid_route route"
  shows "0 \<le> rt_blen route" "nat (rt_blen route) \<le> 16"
    "nat (rt_blen route) \<le> length (dst route)"
    "nat (rt_blen route) \<le> length (src route)"
    "nat (rt_blen route) \<le> length (gwy route)"
  using assms by (auto simp: valid_route_def)

lemma attr_space_le: "n \<le> 16 \<Longrightarrow> attr_space n \<le> 20"
  by (simp add: attr_space_def)

text \<open>The attribute part of \<^verbatim>\<open>sstp_route_newmsg\<close>, from any message with no attribute yet.\<close>

lemma newmsg_attrs:
  assumes v: "valid_route route" and i9: "msg_inv b9 []"
    and b10_def: "b10 = (if have_dst route
                 then put_bytes (NLMSG_DATA + 1) [word_of_int (push_bit 3 (rt_blen route))]
                        (sstp_route_addattr b9 RTA_DST (rt_blen route) (dst route))
                 else b9)"
    and b11_def: "b11 = (if have_src route
                 then put_bytes (NLMSG_DATA + 2) [word_of_int (push_bit 3 (rt_blen route))]
                        (sstp_route_addattr b10 RTA_PREFSRC (rt_blen route) (src route))
                 else b10)"
    and b12_def: "b12 = (if have_gwy route
                 then sstp_route_addattr b11 RTA_GATEWAY (rt_blen route) (gwy route)
                 else b11)"
    and b13_def: "b13 = (if have_oif route
                 then sstp_route_addattr b12 RTA_OIF 4 (le32 (oif route))
                 else b12)"
  shows "msg_inv b13 (spec_route_attrs route)"
    and "\<And>i. 19 \<le> i \<Longrightarrow> i < 28 \<Longrightarrow> b13 ! i = b9 ! i"
    and "b13 ! 16 = b9 ! 16"
    and "b13 ! 17 = (if have_dst route then word_of_int (push_bit 3 (rt_blen route)) else b9 ! 17)"
    and "b13 ! 18 = (if have_src route then word_of_int (push_bit 3 (rt_blen route)) else b9 ! 18)"
    and "attrs_space (spec_route_attrs route) \<le> 68"
    and "\<forall>a \<in> set (spec_route_attrs route). length (snd a) \<le> 1024"
proof -
  note vb = valid_route_blen [OF v]
  define n where "n = nat (rt_blen route)"
  define a1 where "a1 = (if have_dst route then [(RTA_DST, take n (dst route))] else [])"
  define a2 where "a2 = a1 @ (if have_src route then [(RTA_PREFSRC, take n (src route))] else [])"
  define a3 where "a3 = a2 @ (if have_gwy route then [(RTA_GATEWAY, take n (gwy route))] else [])"
  define a4 where "a4 = a3 @ (if have_oif route then [(RTA_OIF, le32 (oif route))] else [])"
  have n16: "n \<le> 16" using vb by (simp add: n_def)
  have sp: "attr_space (min (length xs) n) \<le> 20" for xs :: "byte list"
    using n16 by (intro attr_space_le) simp
  have s1: "attrs_space a1 \<le> 20" using sp [of "dst route"] by (simp add: a1_def)
  have s2: "attrs_space a2 \<le> 40" using s1 sp [of "src route"] by (simp add: a2_def)
  have s3: "attrs_space a3 \<le> 60" using s2 sp [of "gwy route"] by (simp add: a3_def)
  have l9: "length b9 = 1024" using i9 by (simp add: msg_inv_def)
  have i10: "msg_inv b10 a1"
  proof (cases "have_dst route")
    case True
    have "msg_inv (sstp_route_addattr b9 RTA_DST (rt_blen route) (dst route))
            ([] @ [(RTA_DST, take (nat (rt_blen route)) (dst route))])"
      using vb n16 by (intro addattr_inv i9) (simp_all add: n_def)
    then have "msg_inv (sstp_route_addattr b9 RTA_DST (rt_blen route) (dst route)) a1"
      using True by (simp add: a1_def n_def)
    then show ?thesis
      using True s1 by (simp add: b10_def put_body_inv)
  next
    case False
    then show ?thesis using i9 by (simp add: b10_def a1_def)
  qed
  have i11: "msg_inv b11 a2"
  proof (cases "have_src route")
    case True
    have "msg_inv (sstp_route_addattr b10 RTA_PREFSRC (rt_blen route) (src route))
            (a1 @ [(RTA_PREFSRC, take (nat (rt_blen route)) (src route))])"
      using vb n16 s1 by (intro addattr_inv i10) (simp_all add: n_def)
    then have "msg_inv (sstp_route_addattr b10 RTA_PREFSRC (rt_blen route) (src route)) a2"
      using True by (simp add: a2_def n_def)
    then show ?thesis
      using True s2 by (simp add: b11_def put_body_inv)
  next
    case False
    then show ?thesis using i10 by (simp add: b11_def a2_def)
  qed
  have i12: "msg_inv b12 a3"
  proof (cases "have_gwy route")
    case True
    have "msg_inv (sstp_route_addattr b11 RTA_GATEWAY (rt_blen route) (gwy route))
            (a2 @ [(RTA_GATEWAY, take (nat (rt_blen route)) (gwy route))])"
      using vb n16 s2 by (intro addattr_inv i11) (simp_all add: n_def)
    then show ?thesis
      using True by (simp add: b12_def a3_def n_def)
  next
    case False
    then show ?thesis using i11 by (simp add: b12_def a3_def)
  qed
  have i13: "msg_inv b13 a4"
  proof (cases "have_oif route")
    case True
    have "msg_inv (sstp_route_addattr b12 RTA_OIF 4 (le32 (oif route)))
            (a3 @ [(RTA_OIF, take (nat 4) (le32 (oif route)))])"
      using s3 by (intro addattr_inv i12) simp_all
    then show ?thesis
      using True by (simp add: b13_def a4_def)
  next
    case False
    then show ?thesis using i12 by (simp add: b13_def a4_def)
  qed
  have a4: "a4 = spec_route_attrs route"
    by (simp add: a4_def a3_def a2_def a1_def spec_route_attrs_def n_def)
  show "msg_inv b13 (spec_route_attrs route)" using i13 a4 by simp
  have "attrs_space a4 \<le> 68" using s3 by (simp add: a4_def attr_space_def)
  then show "attrs_space (spec_route_attrs route) \<le> 68" by (simp only: a4)
  show "\<forall>a \<in> set (spec_route_attrs route). length (snd a) \<le> 1024"
    using n16 by (auto simp: spec_route_attrs_def n_def)
  have ls: "length (sstp_route_addattr b9 RTA_DST (rt_blen route) (dst route)) = 1024"
    "length (sstp_route_addattr b10 RTA_PREFSRC (rt_blen route) (src route)) = 1024"
    by (simp_all add: sstp_route_addattr_def Let_def l9 b10_def)
  have k10: "b10 ! i = (if i = 17 \<and> have_dst route then word_of_int (push_bit 3 (rt_blen route))
                        else b9 ! i)" if "4 \<le> i" "i < 28" for i
    using that vb n16 i9
    by (simp add: b10_def nth_put_bytes ls addattr_body [OF i9] n_def)
  have k11: "b11 ! i = (if i = 18 \<and> have_src route then word_of_int (push_bit 3 (rt_blen route))
                        else b10 ! i)" if "4 \<le> i" "i < 28" for i
    using that vb n16 s1
    by (simp add: b11_def nth_put_bytes ls addattr_body [OF i10] n_def)
  have k12: "b12 ! i = b11 ! i" if "4 \<le> i" "i < 28" for i
    using that vb n16 s2 by (simp add: b12_def addattr_body [OF i11] n_def)
  have k13: "b13 ! i = b12 ! i" if "4 \<le> i" "i < 28" for i
    using that s3 by (simp add: b13_def addattr_body [OF i12])
  show "b13 ! i = b9 ! i" if "19 \<le> i" "i < 28" for i
    using that by (simp add: k13 k12 k11 k10)
  show "b13 ! 16 = b9 ! 16" by (simp add: k13 k12 k11 k10)
  show "b13 ! 17 = (if have_dst route then word_of_int (push_bit 3 (rt_blen route)) else b9 ! 17)"
    by (simp add: k13 k12 k11 k10)
  show "b13 ! 18 = (if have_src route then word_of_int (push_bit 3 (rt_blen route)) else b9 ! 18)"
    by (simp add: k13 k12 k11 k10)
qed

lemma sint_word32_of_nat: "k < 2 ^ 31 \<Longrightarrow> sint (word_of_nat k :: 32 word) = int k"
  by (simp add: sint_uint uint_nat unat_of_nat signed_take_bit_int_eq_self)

lemma RTM_RTA_28 [simp]: "RTM_RTA = 28"
  by (simp add: RTM_RTA_def NLMSG_ALIGN_def)

lemma NLMSG_SPACE_rtmsg: "NLMSG_SPACE sizeof_rtmsg = 28"
  by (simp add: NLMSG_SPACE_def NLMSG_LENGTH_rtmsg NLMSG_ALIGN_def)

text \<open>What a message with the attributes \<open>as\<close> reads back as.\<close>

lemma msg_inv_read:
  assumes "msg_inv b as" "attrs_space as \<le> 996" "\<forall>a \<in> set as. length (snd a) \<le> 1024"
  shows "sint (nlmsg_len b) = 28 + int (attrs_space as)"
    and "rta_attrs b = as"
    and "rta_lens b = map (\<lambda>a. 4 + int (length (snd a))) as"
proof -
  from assms(1) have nl: "nlmsg_len b = word_of_nat (28 + attrs_space as)"
    and at: "attrs_at b 28 as"
    by (simp_all add: msg_inv_def)
  show "sint (nlmsg_len b) = 28 + int (attrs_space as)"
    unfolding nl using assms(2) by (subst sint_word32_of_nat) simp_all
  have "nlmsg_len b - NLMSG_SPACE sizeof_rtmsg = word_of_nat (attrs_space as)"
    by (simp add: nl NLMSG_SPACE_rtmsg)
  then have pl: "RTM_PAYLOAD b = int (attrs_space as)"
    unfolding RTM_PAYLOAD_def using assms(2) by (simp add: sint_word32_of_nat)
  show "rta_attrs b = as" "rta_lens b = map (\<lambda>a. 4 + int (length (snd a))) as"
    using rta_walk_attrs_at [OF at assms(3)]
    by (simp_all add: rta_attrs_def rta_lens_def pl)
qed

lemma newmsg_facts:
  fixes pid :: int and ctx :: sstp_route_ctx and cmd flags :: int
  assumes v: "valid_route route"
  defines "r \<equiv> sstp_route_newmsg pid ctx route cmd flags"
  shows "msg_inv (buf (snd r)) (spec_route_attrs route)"
    and "fst r = sint (nlmsg_len (buf (snd r)))"
    and "buf (snd r) ! 22 = (if have_gwy route then RT_SCOPE_UNIVERSE else RT_SCOPE_LINK)"
    and "buf (snd r) ! 21 = (if cmd \<noteq> RTM_DELROUTE then RTPROT_BOOT else 0)"
    and "buf (snd r) ! 23 = (if cmd \<noteq> RTM_DELROUTE then RTN_UNICAST else 0)"
    and "buf (snd r) ! 20 = RT_TABLE_MAIN"
    and "buf (snd r) ! 16 = word_of_int (family route)"
    and "seq (snd r) = seq ctx + 1"
proof -
  define b8 where "b8 =
     put_bytes 22 [if have_gwy route then RT_SCOPE_UNIVERSE else RT_SCOPE_LINK]
      (put_bytes 16 [word_of_int (family route)]
        (put_bytes 20 [RT_TABLE_MAIN]
          (put_bytes 12 (le32 (word_of_int pid))
            (put_bytes 8 (le32 (word_of_int (seq ctx + 1)))
              (put_bytes 6 (le16 (NLM_F_REQUEST OR NLM_F_ACK OR word_of_int flags))
                (put_bytes 4 (le16 (word_of_int cmd))
                  (put_bytes 0 (le32 (NLMSG_LENGTH sizeof_rtmsg)) (replicate 1024 0))))))))"
  define b9 where "b9 =
     (if cmd \<noteq> RTM_DELROUTE then put_bytes 23 [RTN_UNICAST] (put_bytes 21 [RTPROT_BOOT] b8)
      else b8)"
  have i8: "msg_inv b8 []"
    unfolding b8_def by (intro put_body_inv msg_inv_init) simp_all
  have i9: "msg_inv b9 []"
    unfolding b9_def using i8 by (simp add: put_body_inv)
  have l8: "length b8 = 1024" using i8 by (simp add: msg_inv_def)
  have k8: "b8 ! 22 = (if have_gwy route then RT_SCOPE_UNIVERSE else RT_SCOPE_LINK)"
    "b8 ! 21 = 0" "b8 ! 23 = 0" "b8 ! 20 = RT_TABLE_MAIN" "b8 ! 16 = word_of_int (family route)"
    by (simp_all add: b8_def nth_put_bytes)
  have k9: "b9 ! 22 = (if have_gwy route then RT_SCOPE_UNIVERSE else RT_SCOPE_LINK)"
    "b9 ! 21 = (if cmd \<noteq> RTM_DELROUTE then RTPROT_BOOT else 0)"
    "b9 ! 23 = (if cmd \<noteq> RTM_DELROUTE then RTN_UNICAST else 0)"
    "b9 ! 20 = RT_TABLE_MAIN" "b9 ! 16 = word_of_int (family route)"
    using k8 by (simp_all add: b9_def nth_put_bytes l8)
  define b10 where "b10 =
     (if have_dst route
      then put_bytes (NLMSG_DATA + 1) [word_of_int (push_bit 3 (rt_blen route))]
             (sstp_route_addattr b9 RTA_DST (rt_blen route) (dst route))
      else b9)"
  define b11 where "b11 =
     (if have_src route
      then put_bytes (NLMSG_DATA + 2) [word_of_int (push_bit 3 (rt_blen route))]
             (sstp_route_addattr b10 RTA_PREFSRC (rt_blen route) (src route))
      else b10)"
  define b12 where "b12 =
     (if have_gwy route
      then sstp_route_addattr b11 RTA_GATEWAY (rt_blen route) (gwy route)
      else b11)"
  define b13 where "b13 =
     (if have_oif route
      then sstp_route_addattr b12 RTA_OIF 4 (le32 (oif route))
      else b12)"
  note A = newmsg_attrs [OF v i9 b10_def b11_def b12_def b13_def]
  have r: "r = (sint (nlmsg_len (buf (snd r))), snd r)" "seq (snd r) = seq ctx + 1"
    by (simp_all add: r_def sstp_route_newmsg_def Let_def)
  have b: "buf (snd r) = b13"
    by (simp add: r_def sstp_route_newmsg_def Let_def b13_def b12_def b11_def b10_def
        b9_def b8_def)
  show "fst r = sint (nlmsg_len (buf (snd r)))" using r(1) by (metis fst_conv)
  show "seq (snd r) = seq ctx + 1" by (rule r(2))
  show "msg_inv (buf (snd r)) (spec_route_attrs route)" using A(1) by (simp add: b)
  show "buf (snd r) ! 22 = (if have_gwy route then RT_SCOPE_UNIVERSE else RT_SCOPE_LINK)"
    using A(2) [of 22] k9 by (simp add: b)
  show "buf (snd r) ! 21 = (if cmd \<noteq> RTM_DELROUTE then RTPROT_BOOT else 0)"
    using A(2) [of 21] k9 by (simp add: b)
  show "buf (snd r) ! 23 = (if cmd \<noteq> RTM_DELROUTE then RTN_UNICAST else 0)"
    using A(2) [of 23] k9 by (simp add: b)
  show "buf (snd r) ! 20 = RT_TABLE_MAIN"
    using A(2) [of 20] k9 by (simp add: b)
  show "buf (snd r) ! 16 = word_of_int (family route)"
    using A(3) k9 by (simp add: b)
qed

section \<open>The receive loop\<close>

text \<open>The negation that \<^verbatim>\<open>errno = -err->error\<close> computes, on the values of an \<^verbatim>\<open>int\<close>.\<close>

lemma neg_int_sint: "neg_int (sint (w :: 32 word)) = sint (- w)"
  by (simp add: neg_int_def)

lemma neg_int_eq: "- 2147483648 < x \<Longrightarrow> x < 2147483648 \<Longrightarrow> neg_int x = - x"
proof -
  assume a: "- 2147483648 < x" "x < 2147483648"
  have "sint (word_of_int (- x) :: 32 word) = signed_take_bit (LENGTH(32) - 1) (- x)"
    by (rule sint_sbintrunc')
  also have "\<dots> = - x" using a by (intro signed_take_bit_int_eq_self) simp_all
  finally show ?thesis by (simp add: neg_int_def)
qed

lemma sint_32_range: "- 2147483648 \<le> sint (w :: 32 word)" "sint (w :: 32 word) < 2147483648"
  using sint_ge [of w] sint_lt [of w] by simp_all

lemma neg_int_code:
  fixes w :: "32 word"
  defines "x \<equiv> sint w"
  shows "x \<noteq> 0 \<Longrightarrow> neg_int x \<noteq> 0"
    and "neg_int (neg_int x) = x"
    and "x \<noteq> - 2147483648 \<Longrightarrow> neg_int x = - x"
    and "x = - 2147483648 \<Longrightarrow> neg_int x = - 2147483648"
proof -
  show "neg_int x \<noteq> 0" if "x \<noteq> 0"
  proof
    assume "neg_int x = 0"
    then have "sint (- w) = 0" by (simp add: x_def neg_int_sint)
    then have "word_of_int (sint (- w)) = (word_of_int 0 :: 32 word)" by (rule arg_cong)
    then have "- w = 0" by simp
    then have "w = 0" by simp
    with that show False by (simp add: x_def)
  qed
  show "neg_int (neg_int x) = x" by (simp add: x_def neg_int_sint)
  show "neg_int x = - x" if "x \<noteq> - 2147483648"
    using that sint_32_range [of w] by (intro neg_int_eq) (simp_all add: x_def)
  show "neg_int x = - 2147483648" if "x = - 2147483648"
    using that by (simp add: neg_int_def)
qed

text \<open>A datagram written to the start of the buffer: the header read there is its own.\<close>

lemma frame_fields:
  assumes "16 \<le> length d" "length d \<le> length b"
  shows "nlmsg_len (put_bytes 0 d b) = nlmsg_len d"
    and "nlmsg_type (put_bytes 0 d b) = nlmsg_type d"
    and "nlmsg_flags (put_bytes 0 d b) = nlmsg_flags d"
    and "nlmsg_seq (put_bytes 0 d b) = nlmsg_seq d"
    and "nlmsg_pid (put_bytes 0 d b) = nlmsg_pid d"
  using assms
  by (simp_all add: nlmsg_len_def nlmsg_type_def nlmsg_flags_def nlmsg_seq_def nlmsg_pid_def
      get_u16_put_bytes_inside get_u32_put_bytes_inside)

lemma frame_error:
  assumes "20 \<le> length d" "length d \<le> length b"
  shows "nlmsgerr_error (put_bytes 0 d b) = nlmsgerr_error d"
  using assms by (simp add: nlmsgerr_error_def get_u32_put_bytes_inside)

lemma NLMSG_OK_frame:
  assumes "16 \<le> length d" "length d \<le> length b"
  shows "NLMSG_OK (put_bytes 0 d b) n = NLMSG_OK d n"
  using assms by (simp add: NLMSG_OK_def frame_fields)

lemma NLMSG_OK_D:
  assumes "NLMSG_OK d (int (length d))" "length d \<le> 1024"
  shows "16 \<le> length d" "0 < nlmsg_len d" "\<not> nlmsg_len d > word_of_int (int (length d))"
  using assms by (auto simp: NLMSG_OK_def word_le_nat_alt word_less_nat_alt)

text \<open>
  One turn of the loop on a datagram that passes \<^verbatim>\<open>NLMSG_OK\<close>, when nothing has been
  accepted yet (\<^verbatim>\<open>ctx->len\<close> is 0). A message that is accepted ends the loop whatever
  its type and flags: \<^verbatim>\<open>ctx->len\<close> becomes the count of bytes read, \<^verbatim>\<open>NLMSG_OK\<close> has
  checked that \<^verbatim>\<open>nlmsg_len\<close> is not above this count, so the loop condition
  \<^verbatim>\<open>nlh->nlmsg_len > ctx->len\<close> is false.
\<close>

lemma recv_loop_frame:
  assumes b: "length (buf ctx) = 1024" and l: "len ctx = 0"
    and d: "length d \<le> 1024" and ok: "NLMSG_OK d (int (length d))"
  shows "recv_loop pid ctx eno (RecvData d # evs) =
     (let ctx1 = ctx\<lparr>buf := put_bytes 0 d (buf ctx)\<rparr>
      in if nlmsg_type d = NLMSG_ERROR \<and> nlmsgerr_error (buf ctx1) \<noteq> 0
           then Some (- 1, ctx1, neg_int (nlmsgerr_error (buf ctx1)), evs)
         else if nlmsg_seq d \<noteq> word_of_int (seq ctx) \<or> nlmsg_pid d \<noteq> word_of_int pid
           then recv_loop pid ctx1 eno evs
         else Some (int (length d), ctx1\<lparr>len := int (length d)\<rparr>, eno, evs))"
proof -
  have n16: "16 \<le> length d" and pos: "0 < nlmsg_len d"
    and le: "\<not> nlmsg_len d > word_of_int (int (length d))"
    using NLMSG_OK_D [OF ok d] by simp_all
  have fit: "length d \<le> length (buf ctx)" using b d by simp
  note ff = frame_fields [OF n16 fit] NLMSG_OK_frame [OF n16 fit]
  have dat: "take 1024 d = d" "min (length d) 1024 = length d" "d \<noteq> []"
    using d n16 by auto
  show ?thesis
    using ok pos le
    by (simp add: l dat ff recv_again_def Let_def)
qed

lemma ctx_len_buf_swap: "ctx\<lparr>len := n, buf := x\<rparr> = ctx\<lparr>buf := x, len := n\<rparr>"
  for ctx :: sstp_route_ctx
  by (cases ctx) simp

text \<open>
  C1, as amended. A message that passes \<^verbatim>\<open>NLMSG_OK\<close>, is not an error frame with a
  code other than 0, and whose sequence number differs from the session's counter or
  whose process identifier differs from \<^verbatim>\<open>getpid()\<close>, is discarded: it is written to
  the buffer and the receive goes on with what arrives next, as if the message had not
  been there. The exchange does not return on account of it.
\<close>

theorem recv_discards_uncorrelated:
  assumes "length (buf ctx) = 1024" and "length d \<le> 1024"
    and "NLMSG_OK d (int (length d))"
    and "nlmsg_type d \<noteq> NLMSG_ERROR \<or> 20 \<le> length d \<and> nlmsgerr_error d = 0"
    and "nlmsg_seq d \<noteq> word_of_int (seq ctx) \<or> nlmsg_pid d \<noteq> word_of_int pid"
  shows "sstp_route_recv pid ctx eno (RecvData d # evs) =
         sstp_route_recv pid (ctx\<lparr>buf := put_bytes 0 d (buf ctx)\<rparr>) eno evs"
proof -
  have e: "nlmsg_type d = NLMSG_ERROR \<Longrightarrow> nlmsgerr_error (put_bytes 0 d (buf ctx)) = 0"
    using assms(1,2,4) by (auto simp: frame_error)
  show ?thesis
    unfolding sstp_route_recv_def
    using assms(5) e
    by (subst recv_loop_frame) (auto simp: assms Let_def ctx_len_buf_swap)
qed

lemma sstp_route_recv_frame:
  assumes "length (buf ctx) = 1024" "length d \<le> 1024" "NLMSG_OK d (int (length d))"
  shows "sstp_route_recv pid ctx eno (RecvData d # evs) =
     (let ctx1 = ctx\<lparr>len := 0, buf := put_bytes 0 d (buf ctx)\<rparr>
      in if nlmsg_type d = NLMSG_ERROR \<and> nlmsgerr_error (buf ctx1) \<noteq> 0
           then Some (- 1, ctx1, neg_int (nlmsgerr_error (buf ctx1)), evs)
         else if nlmsg_seq d \<noteq> word_of_int (seq ctx) \<or> nlmsg_pid d \<noteq> word_of_int pid
           then recv_loop pid ctx1 eno evs
         else Some (int (length d), ctx1\<lparr>len := int (length d)\<rparr>, eno, evs))"
  unfolding sstp_route_recv_def
  by (subst recv_loop_frame) (simp_all add: assms Let_def)

lemma ex_ctx_facts: "length (buf ex_ctx) = 1024" "seq ex_ctx = 1"
  by (simp_all add: ex_ctx_def ex_ctx0_def sstp_route_get_request_def Let_def
      sstp_route_addattr_def)

theorem recv_discards_uncorrelated_witness:
  "length (buf ex_ctx) = 1024 \<and> length ex_other \<le> 1024 \<and>
   NLMSG_OK ex_other (int (length ex_other)) \<and> nlmsg_type ex_other \<noteq> NLMSG_ERROR \<and>
   nlmsg_seq ex_other \<noteq> word_of_int (seq ex_ctx) \<and>
   sstp_route_recv 100 ex_ctx 0 [RecvData ex_other, RecvData ex_ack] =
   sstp_route_recv 100 (ex_ctx\<lparr>buf := put_bytes 0 ex_other (buf ex_ctx)\<rparr>) 0 [RecvData ex_ack] \<and>
   sstp_route_recv 100 ex_ctx 0 [RecvData ex_other] = None"
proof -
  have h1: "length (buf ex_ctx) = 1024" by (rule ex_ctx_facts)
  have h2: "length ex_other \<le> 1024" by code_simp
  have h3: "NLMSG_OK ex_other (int (length ex_other))" by code_simp
  have h4: "nlmsg_type ex_other \<noteq> NLMSG_ERROR" by code_simp
  have "nlmsg_seq ex_other \<noteq> 1" by code_simp
  then have h5: "nlmsg_seq ex_other \<noteq> word_of_int (seq ex_ctx)" by (simp add: ex_ctx_facts)
  have n: "sstp_route_recv 100 (ex_ctx\<lparr>buf := put_bytes 0 ex_other (buf ex_ctx)\<rparr>) 0 [] = None"
    by (simp add: sstp_route_recv_def)
  from h4 have h4': "nlmsg_type ex_other \<noteq> NLMSG_ERROR \<or>
      20 \<le> length ex_other \<and> nlmsgerr_error ex_other = 0"
    by simp
  from h5 have h5': "nlmsg_seq ex_other \<noteq> word_of_int (seq ex_ctx) \<or>
      nlmsg_pid ex_other \<noteq> word_of_int 100"
    by simp
  show ?thesis
    using h1 h2 h3 h4 h5 n
      recv_discards_uncorrelated [OF h1 h2 h3 h4' h5', where eno = 0 and evs = "[RecvData ex_ack]"]
      recv_discards_uncorrelated [OF h1 h2 h3 h4' h5', where eno = 0 and evs = "[]"]
    by simp
qed

text \<open>
  C1 as stated fails. \<open>ex_err_other\<close> passes \<^verbatim>\<open>NLMSG_OK\<close> and carries sequence number 9
  while the session waits for 1, so it belongs to other traffic; but the loop looks at
  the message type before it compares sequence numbers, and an error frame with a
  code other than 0 ends the exchange with \<open>-1\<close> and \<^verbatim>\<open>errno\<close> 17, the acknowledgement
  of the session's own request left unread.
\<close>

theorem recv_error_frame_uncorrelated_counterexample:
  "length ex_err_other \<le> 1024 \<and> NLMSG_OK ex_err_other (int (length ex_err_other)) \<and>
   nlmsg_seq ex_err_other \<noteq> word_of_int (seq ex_ctx) \<and>
   sstp_route_recv 100 ex_ctx 0 [RecvData ex_err_other, RecvData ex_ack] =
     Some (- 1, ex_ctx\<lparr>len := 0, buf := put_bytes 0 ex_err_other (buf ex_ctx)\<rparr>, 17,
           [RecvData ex_ack])"
proof -
  have f: "length ex_err_other = 36" "NLMSG_OK ex_err_other 36" "nlmsg_type ex_err_other = 2"
    "nlmsgerr_error ex_err_other = - 17" "nlmsg_seq ex_err_other = 9"
    by code_simp+
  have e: "nlmsgerr_error (put_bytes 0 ex_err_other (buf ex_ctx)) = - 17"
    by (simp add: frame_error f ex_ctx_facts)
  show ?thesis
    by (subst sstp_route_recv_frame) (simp_all add: f e ex_ctx_facts Let_def neg_int_eq)
qed

text \<open>
  C3 at a multi-part answer. Two parts, each flagged \<^verbatim>\<open>NLM_F_MULTI\<close> and neither of
  type \<^verbatim>\<open>NLMSG_DONE\<close>, are followed by the \<^verbatim>\<open>NLMSG_DONE\<close> message, all for this
  session's request. The receive returns after the first part with its 36 bytes; the
  second part and the end message stay unread.
\<close>

theorem recv_multipart_returns_after_first_part:
  "nlmsg_flags ex_part AND NLM_F_MULTI \<noteq> 0 \<and> nlmsg_type ex_part \<noteq> NLMSG_DONE \<and>
   nlmsg_type ex_done = NLMSG_DONE \<and>
   sstp_route_recv 100 ex_ctx 0 [RecvData ex_part, RecvData ex_part, RecvData ex_done] =
     Some (36, ex_ctx\<lparr>len := 36, buf := put_bytes 0 ex_part (buf ex_ctx)\<rparr>, 0,
           [RecvData ex_part, RecvData ex_done])"
proof -
  have f: "length ex_part = 36" "NLMSG_OK ex_part 36" "nlmsg_type ex_part = 24"
    "nlmsg_seq ex_part = 1" "nlmsg_pid ex_part = 100" "nlmsg_flags ex_part = 2"
    "nlmsg_type ex_done = 3"
    by code_simp+
  have r: "sstp_route_recv 100 ex_ctx 0 [RecvData ex_part, RecvData ex_part, RecvData ex_done] =
     Some (36, ex_ctx\<lparr>len := 36, buf := put_bytes 0 ex_part (buf ex_ctx)\<rparr>, 0,
           [RecvData ex_part, RecvData ex_done])"
    by (subst sstp_route_recv_frame) (simp_all add: f ex_ctx_facts Let_def)
  show ?thesis using r by (simp add: f)
qed

section \<open>The messages that are built\<close>

lemma uint_word32_of_nat: "k < 2 ^ 32 \<Longrightarrow> uint (word_of_nat k :: 32 word) = int k"
  by (simp only: uint_nat unat_word_of_nat_32)

text \<open>
  C4. For every route that satisfies the data model's invariant, the message built by
  \<^verbatim>\<open>sstp_route_newmsg\<close> declares, and the function returns, a total length of header
  size 16 plus body size 12 plus the sum of the padded sizes of the attributes asked
  for; each attribute in it declares the length 4 plus its payload size; and reading
  the attribute region back the way \<^verbatim>\<open>sstp_route_get\<close> walks it gives exactly the
  attributes whose presence flags are set, in the order destination, source, gateway,
  interface, each with the bytes of its field.
\<close>

theorem newmsg_length_and_roundtrip:
  assumes "valid_route route"
  shows "fst (sstp_route_newmsg pid ctx route cmd flags) =
           16 + 12 + int (attrs_space (spec_route_attrs route)) \<and>
         uint (nlmsg_len (buf (snd (sstp_route_newmsg pid ctx route cmd flags)))) =
           16 + 12 + int (attrs_space (spec_route_attrs route)) \<and>
         rta_lens (buf (snd (sstp_route_newmsg pid ctx route cmd flags))) =
           map (\<lambda>a. 4 + int (length (snd a))) (spec_route_attrs route) \<and>
         rta_attrs (buf (snd (sstp_route_newmsg pid ctx route cmd flags))) =
           spec_route_attrs route"
proof -
  let ?b = "buf (snd (sstp_route_newmsg pid ctx route cmd flags))"
  let ?as = "spec_route_attrs route"
  note F = newmsg_facts [OF assms, of pid ctx cmd flags]
  have le: "attrs_space ?as \<le> 68" and pl: "\<forall>a \<in> set ?as. length (snd a) \<le> 1024"
    using newmsg_attrs(6,7) [OF assms msg_inv_init refl refl refl refl] by simp_all
  then have le': "attrs_space ?as \<le> 996" by simp
  note R = msg_inv_read [OF F(1) le' pl]
  have nl: "nlmsg_len ?b = word_of_nat (28 + attrs_space ?as)"
    using F(1) by (simp add: msg_inv_def)
  have "28 + attrs_space ?as < 2 ^ 32" using le by simp
  then have "uint (nlmsg_len ?b) = int (28 + attrs_space ?as)"
    unfolding nl by (rule uint_word32_of_nat)
  then show ?thesis using R F(2) by simp
qed

lemma ex_route_valid: "valid_route ex_route"
  by (simp add: valid_route_def ex_route_def)

theorem newmsg_length_and_roundtrip_witness:
  "valid_route ex_route \<and>
   fst (sstp_route_newmsg 100 ex_ctx0 ex_route RTM_NEWROUTE (NLM_F_CREATE OR NLM_F_REPLACE)) = 60 \<and>
   rta_lens (buf (snd (sstp_route_newmsg 100 ex_ctx0 ex_route RTM_NEWROUTE
       (NLM_F_CREATE OR NLM_F_REPLACE)))) = [8, 8, 8, 8] \<and>
   rta_attrs (buf (snd (sstp_route_newmsg 100 ex_ctx0 ex_route RTM_NEWROUTE
       (NLM_F_CREATE OR NLM_F_REPLACE)))) =
     [(RTA_DST, [4, 4, 2, 2]), (RTA_PREFSRC, [10, 0, 0, 7]), (RTA_GATEWAY, [10, 0, 0, 1]),
      (RTA_OIF, [3, 0, 0, 0])]"
proof -
  have a: "spec_route_attrs ex_route =
     [(RTA_DST, [4, 4, 2, 2]), (RTA_PREFSRC, [10, 0, 0, 7]), (RTA_GATEWAY, [10, 0, 0, 1]),
      (RTA_OIF, [3, 0, 0, 0])]"
    by (simp add: spec_route_attrs_def ex_route_def le32_def)
  show ?thesis
    using ex_route_valid
      newmsg_length_and_roundtrip [OF ex_route_valid, of 100 ex_ctx0 RTM_NEWROUTE
        "NLM_F_CREATE OR NLM_F_REPLACE"]
    by (simp add: a attr_space_def)
qed

text \<open>
  C5. For every route that satisfies the data model's invariant and every operation
  code, the body built by \<^verbatim>\<open>sstp_route_newmsg\<close> has scope "universe" when the
  gateway flag is set and "link" when it is not, and protocol "boot" and type "unicast"
  when the operation is not \<^verbatim>\<open>RTM_DELROUTE\<close>; for \<^verbatim>\<open>RTM_DELROUTE\<close> both are 0.
\<close>

theorem newmsg_body_fields:
  assumes "valid_route route"
  shows "rtm_scope (buf (snd (sstp_route_newmsg pid ctx route cmd flags))) =
           (if have_gwy route then RT_SCOPE_UNIVERSE else RT_SCOPE_LINK) \<and>
         rtm_protocol (buf (snd (sstp_route_newmsg pid ctx route cmd flags))) =
           (if cmd \<noteq> RTM_DELROUTE then RTPROT_BOOT else 0) \<and>
         rtm_type (buf (snd (sstp_route_newmsg pid ctx route cmd flags))) =
           (if cmd \<noteq> RTM_DELROUTE then RTN_UNICAST else 0)"
  using newmsg_facts(3,4,5) [OF assms, of pid ctx cmd flags]
  by (simp add: rtm_scope_def rtm_protocol_def rtm_type_def)

theorem newmsg_body_fields_witness:
  "valid_route ex_route \<and>
   rtm_scope (buf (snd (sstp_route_newmsg 100 ex_ctx0 ex_route RTM_DELROUTE 0))) =
     RT_SCOPE_UNIVERSE \<and>
   rtm_protocol (buf (snd (sstp_route_newmsg 100 ex_ctx0 ex_route RTM_DELROUTE 0))) = 0 \<and>
   rtm_type (buf (snd (sstp_route_newmsg 100 ex_ctx0 ex_route RTM_DELROUTE 0))) = 0 \<and>
   valid_route (ex_route\<lparr>have_gwy := False\<rparr>) \<and>
   rtm_scope (buf (snd (sstp_route_newmsg 100 ex_ctx0 (ex_route\<lparr>have_gwy := False\<rparr>)
     RTM_NEWROUTE (NLM_F_CREATE OR NLM_F_REPLACE)))) = RT_SCOPE_LINK \<and>
   rtm_protocol (buf (snd (sstp_route_newmsg 100 ex_ctx0 (ex_route\<lparr>have_gwy := False\<rparr>)
     RTM_NEWROUTE (NLM_F_CREATE OR NLM_F_REPLACE)))) = RTPROT_BOOT \<and>
   rtm_type (buf (snd (sstp_route_newmsg 100 ex_ctx0 (ex_route\<lparr>have_gwy := False\<rparr>)
     RTM_NEWROUTE (NLM_F_CREATE OR NLM_F_REPLACE)))) = RTN_UNICAST"
proof -
  have v: "valid_route (ex_route\<lparr>have_gwy := False\<rparr>)"
    by (simp add: valid_route_def ex_route_def)
  have g: "have_gwy ex_route" by (simp add: ex_route_def)
  show ?thesis
    using ex_route_valid v g
      newmsg_body_fields [OF ex_route_valid, of 100 ex_ctx0 RTM_DELROUTE 0]
      newmsg_body_fields [OF v, of 100 ex_ctx0 RTM_NEWROUTE "NLM_F_CREATE OR NLM_F_REPLACE"]
    by simp
qed

lemma word16_of_uint: "uint (w :: 16 word) = k \<Longrightarrow> w = word_of_int k"
  by auto

lemma get_request_facts:
  fixes pid :: int and ctx :: sstp_route_ctx and dest :: sockaddr and n :: int
    and addr :: "byte list"
  assumes fam: "uint (sa_family dest) = AF_INET \<and> n = 4 \<and> addr = sin_addr dest \<or>
                uint (sa_family dest) = AF_INET6 \<and> n = 16 \<and> addr = sin6_addr dest"
    and len: "nat n \<le> length addr"
  defines "b \<equiv> buf (sstp_route_get_request pid ctx dest)"
  shows "msg_inv b [(RTA_DST, take (nat n) addr)]"
    and "b ! 16 = ucast (sa_family dest)"
    and "b ! 17 = word_of_int (8 * n)"
    and "b ! 18 = 0" and "b ! 19 = 0" and "b ! 20 = RT_TABLE_MAIN" and "b ! 21 = 0"
    and "b ! 22 = 0" and "b ! 23 = 0"
    and "nlmsg_type b = word_of_int RTM_GETROUTE" and "nlmsg_flags b = NLM_F_REQUEST"
    and "nlmsg_seq b = word_of_int (seq ctx + 1)" and "nlmsg_pid b = word_of_int pid"
proof -
  define b7 where "b7 =
     put_bytes 20 [RT_TABLE_MAIN]
       (put_bytes 16 [ucast (sa_family dest)]
          (put_bytes 12 (le32 (word_of_int pid))
            (put_bytes 8 (le32 (word_of_int (seq ctx + 1)))
              (put_bytes 6 (le16 NLM_F_REQUEST)
                (put_bytes 4 (le16 (word_of_int RTM_GETROUTE))
                  (put_bytes 0 (le32 (NLMSG_LENGTH sizeof_rtmsg)) (replicate 1024 0)))))))"
  have i7: "msg_inv b7 []"
    unfolding b7_def by (intro put_body_inv msg_inv_init) simp_all
  have l7: "length b7 = 1024" using i7 by (simp add: msg_inv_def)
  have n: "0 \<le> n" "n \<le> 16" "n = 4 \<or> n = 16" using fam by auto
  have b: "b = put_bytes 17 [word_of_int (8 * n)] (sstp_route_addattr b7 RTA_DST n addr)"
    using fam by (auto simp: b_def sstp_route_get_request_def Let_def b7_def)
  have ia: "msg_inv (sstp_route_addattr b7 RTA_DST n addr) ([] @ [(RTA_DST, take (nat n) addr)])"
    using n len by (intro addattr_inv i7) simp_all
  then have ia': "msg_inv (sstp_route_addattr b7 RTA_DST n addr) [(RTA_DST, take (nat n) addr)]"
    by simp
  have sp: "attrs_space [(RTA_DST, take (nat n) addr)] \<le> 20"
    using n len by (auto simp: attr_space_def)
  show "msg_inv b [(RTA_DST, take (nat n) addr)]"
    unfolding b using sp by (intro put_body_inv ia') simp_all
  have la: "length (sstp_route_addattr b7 RTA_DST n addr) = 1024"
    using ia' by (simp add: msg_inv_def)
  have k: "b ! i = (if i = 17 then word_of_int (8 * n) else b7 ! i)" if "4 \<le> i" "i < 28" for i
    using that n by (simp add: b nth_put_bytes la addattr_body [OF i7])
  show "b ! 16 = ucast (sa_family dest)" "b ! 17 = word_of_int (8 * n)"
    "b ! 18 = 0" "b ! 19 = 0" "b ! 20 = RT_TABLE_MAIN" "b ! 21 = 0" "b ! 22 = 0" "b ! 23 = 0"
    by (simp_all add: k) (simp_all add: b7_def nth_put_bytes)
  have g16: "get_u16 b i = get_u16 b7 i" if "4 \<le> i" "i + 2 \<le> 16" for i
    using that by (simp add: get_u16_def k)
  have g32: "get_u32 b i = get_u32 b7 i" if "4 \<le> i" "i + 4 \<le> 16" for i
    using that by (simp add: get_u32_def k)
  show "nlmsg_type b = word_of_int RTM_GETROUTE" "nlmsg_flags b = NLM_F_REQUEST"
    by (simp_all add: nlmsg_type_def nlmsg_flags_def g16)
      (simp_all add: b7_def get_u16_put_bytes_outside get_u16_put_bytes_inside)
  show "nlmsg_seq b = word_of_int (seq ctx + 1)" "nlmsg_pid b = word_of_int pid"
    by (simp_all add: nlmsg_seq_def nlmsg_pid_def g32)
      (simp_all add: b7_def get_u32_put_bytes_outside get_u32_put_bytes_inside)
qed

text \<open>
  C6. For a destination of family IPv4 or IPv6 (whose \<^verbatim>\<open>struct sockaddr\<close> holds the
  address), the request that \<^verbatim>\<open>sstp_route_get\<close> builds carries the destination's
  family, a destination prefix length of 32 for IPv4 and 128 for IPv6, no source prefix,
  type of service, protocol, scope or route type, and exactly one attribute, the
  destination address.
\<close>

theorem get_request_shape:
  assumes "uint (sa_family dest) = AF_INET \<and> 6 \<le> length (sa_data dest) \<or>
           uint (sa_family dest) = AF_INET6 \<and> 22 \<le> length (sa_data dest)"
  shows "let b = buf (sstp_route_get_request pid ctx dest)
         in uint (rtm_family b) = uint (sa_family dest) \<and>
            rtm_dst_len b = (if uint (sa_family dest) = AF_INET then 32 else 128) \<and>
            rtm_src_len b = 0 \<and> rtm_tos b = 0 \<and> rtm_protocol b = 0 \<and>
            rtm_scope b = 0 \<and> rtm_type b = 0 \<and>
            rta_attrs b =
              [(RTA_DST, if uint (sa_family dest) = AF_INET then take 4 (sin_addr dest)
                         else take 16 (sin6_addr dest))] \<and>
            uint (nlmsg_len b) =
              16 + 12 + (if uint (sa_family dest) = AF_INET then 8 else 20)"
proof -
  define n :: int where "n = (if uint (sa_family dest) = AF_INET then 4 else 16)"
  define addr where
    "addr = (if uint (sa_family dest) = AF_INET then sin_addr dest else sin6_addr dest)"
  define b where "b = buf (sstp_route_get_request pid ctx dest)"
  have fam: "uint (sa_family dest) = AF_INET \<and> n = 4 \<and> addr = sin_addr dest \<or>
             uint (sa_family dest) = AF_INET6 \<and> n = 16 \<and> addr = sin6_addr dest"
    using assms by (auto simp: n_def addr_def)
  have len: "nat n \<le> length addr"
    using assms by (auto simp: n_def addr_def sin_addr_def sin6_addr_def)
  note F = get_request_facts [OF fam len, of pid ctx, folded b_def]
  have tk: "length (take (nat n) addr) = nat n" using len by simp
  have sp: "attrs_space [(RTA_DST, take (nat n) addr)] = (if n = 4 then 8 else 20)"
    using fam len by (auto simp: attr_space_def)
  have R: "rta_attrs b = [(RTA_DST, take (nat n) addr)]"
    using fam len by (intro msg_inv_read(2) [OF F(1)]) (auto simp: attr_space_def)
  have "nlmsg_len b = word_of_nat (28 + attrs_space [(RTA_DST, take (nat n) addr)])"
    using F(1) by (simp only: msg_inv_def)
  then have "nlmsg_len b = word_of_nat (28 + (if n = 4 then 8 else 20))"
    by (simp only: sp)
  then have L: "uint (nlmsg_len b) = 28 + (if n = 4 then 8 else 20)"
    by (simp add: uint_word32_of_nat del: of_nat_add)
  have "sa_family dest = 2 \<or> sa_family dest = 10"
    using assms word16_of_uint [of "sa_family dest" 2] word16_of_uint [of "sa_family dest" 10]
    by auto
  then have u: "uint (ucast (sa_family dest) :: byte) = uint (sa_family dest)"
    by auto
  show ?thesis
    unfolding Let_def b_def [symmetric]
    using fam R L u
    by (auto simp: rtm_family_def rtm_dst_len_def rtm_src_len_def rtm_tos_def
        rtm_protocol_def rtm_scope_def rtm_type_def F n_def addr_def)
qed

theorem get_request_shape_witness:
  "uint (sa_family ex_dest) = AF_INET \<and> 6 \<le> length (sa_data ex_dest) \<and>
   uint (rtm_family (buf (sstp_route_get_request 100 ex_ctx0 ex_dest))) = AF_INET \<and>
   rtm_dst_len (buf (sstp_route_get_request 100 ex_ctx0 ex_dest)) = 32 \<and>
   rta_attrs (buf (sstp_route_get_request 100 ex_ctx0 ex_dest)) = [(RTA_DST, [4, 4, 2, 2])] \<and>
   uint (nlmsg_len (buf (sstp_route_get_request 100 ex_ctx0 ex_dest))) = 36 \<and>
   uint (sa_family ex_dest6) = AF_INET6 \<and> 22 \<le> length (sa_data ex_dest6) \<and>
   uint (rtm_family (buf (sstp_route_get_request 100 ex_ctx0 ex_dest6))) = AF_INET6 \<and>
   rtm_dst_len (buf (sstp_route_get_request 100 ex_ctx0 ex_dest6)) = 128 \<and>
   rta_attrs (buf (sstp_route_get_request 100 ex_ctx0 ex_dest6)) =
     [(RTA_DST, [32, 1, 13, 184, 0, 0, 0, 0, 0, 0, 0, 0, 0, 0, 0, 1])] \<and>
   uint (nlmsg_len (buf (sstp_route_get_request 100 ex_ctx0 ex_dest6))) = 48"
proof -
  have h4: "uint (sa_family ex_dest) = AF_INET \<and> 6 \<le> length (sa_data ex_dest) \<or>
            uint (sa_family ex_dest) = AF_INET6 \<and> 22 \<le> length (sa_data ex_dest)"
    by (simp add: ex_dest_def)
  have h6: "uint (sa_family ex_dest6) = AF_INET \<and> 6 \<le> length (sa_data ex_dest6) \<or>
            uint (sa_family ex_dest6) = AF_INET6 \<and> 22 \<le> length (sa_data ex_dest6)"
    by (simp add: ex_dest6_def)
  have e: "uint (sa_family ex_dest) = 2" "length (sa_data ex_dest) = 14"
    "take 4 (sin_addr ex_dest) = [4, 4, 2, 2]"
    "uint (sa_family ex_dest6) = 10" "length (sa_data ex_dest6) = 26"
    "take 16 (sin6_addr ex_dest6) = [32, 1, 13, 184, 0, 0, 0, 0, 0, 0, 0, 0, 0, 0, 0, 1]"
    by (simp_all add: ex_dest_def ex_dest6_def sin_addr_def sin6_addr_def)
  show ?thesis
    using get_request_shape [OF h4, of 100 ex_ctx0] get_request_shape [OF h6, of 100 ex_ctx0]
    by (simp add: Let_def e)
qed

section \<open>Decoding a response\<close>

lemma length_sstp_route_addattr [simp]: "length (sstp_route_addattr b ty n val) = length b"
  by (simp add: sstp_route_addattr_def Let_def)

lemma get_request_session:
  "length (buf (sstp_route_get_request pid ctx dest)) = 1024"
  "seq (sstp_route_get_request pid ctx dest) = seq ctx + 1"
  by (simp_all add: sstp_route_get_request_def Let_def)

lemma sstp_route_talk_sent [simp]:
  "sstp_route_talk pid ctx sz (SendLen sz) eno evs = sstp_route_recv pid ctx eno evs"
  by (simp add: sstp_route_talk_def)

text \<open>
  \<^verbatim>\<open>sstp_route_get\<close> when the request is sent whole and the first datagram to arrive
  passes \<^verbatim>\<open>NLMSG_OK\<close>, answers this request and is not an error frame.
\<close>

lemma sstp_route_get_response:
  fixes pid :: int and ctx :: sstp_route_ctx and dest :: sockaddr and d :: "byte list"
  defines "rq \<equiv> sstp_route_get_request pid ctx dest"
  defines "b \<equiv> put_bytes 0 d (buf rq)"
  assumes d: "length d \<le> 1024" "NLMSG_OK d (int (length d))"
    and ne: "nlmsg_type d \<noteq> NLMSG_ERROR"
    and corr: "nlmsg_seq d = word_of_int (seq ctx + 1)" "nlmsg_pid d = word_of_int pid"
  shows "sstp_route_get pid ifn ctx dest route (SendLen (sint (nlmsg_len (buf rq)))) eno
           (RecvData d # evs) =
     (if uint (rtm_family b) \<noteq> AF_INET \<and> uint (rtm_family b) \<noteq> AF_INET6
      then Some (- 1, route, rq\<lparr>len := int (length d), buf := b\<rparr>, eno, evs)
      else (case get_attrs ifn b RTM_RTA (RTM_PAYLOAD b)
                   ((route_zero route)\<lparr>family := uint (rtm_family b),
                      rt_blen := (if uint (rtm_family b) = AF_INET6 then 16 else 4)\<rparr>) eno of
              None \<Rightarrow> None
            | Some (r3, eno3) \<Rightarrow>
                Some (0, r3, rq\<lparr>len := int (length d), buf := b\<rparr>, eno3, evs)))"
proof -
  note S = get_request_session [of pid ctx dest, folded rq_def]
  have n16: "16 \<le> length d" using NLMSG_OK_D [OF d(2) d(1)] by simp
  have fit: "length d \<le> length (buf rq)" using d(1) S(1) by simp
  have ok: "NLMSG_OK b (int (length d))"
    unfolding b_def using d(2) by (simp add: NLMSG_OK_frame [OF n16 fit])
  have rv: "sstp_route_recv pid rq eno (RecvData d # evs) =
      Some (int (length d), rq\<lparr>len := int (length d), buf := b\<rparr>, eno, evs)"
    using ne corr
    by (subst sstp_route_recv_frame [OF S(1) d]) (simp add: Let_def S(2) b_def ctx_len_buf_swap)
  show ?thesis
    using ok
    by (simp add: sstp_route_get_def Let_def rv flip: rq_def)
qed

lemma bytes_at_nth:
  assumes "bytes_at b off n = p" "length p = n" "i < n"
  shows "b ! (off + i) = p ! i"
proof -
  have "length (take n (drop off b)) = n" using assms by (simp add: bytes_at_def)
  then have "off + n \<le> length b" using assms(3) by (auto simp: min_def split: if_splits)
  then show ?thesis using assms by (auto simp: bytes_at_def)
qed

lemma bytes_at_inside:
  assumes "bytes_at b off n = p" "length p = n" "0 < n"
  shows "off + n \<le> length b"
proof -
  have "length (take n (drop off b)) = n" using assms by (simp add: bytes_at_def)
  then show ?thesis using assms(3) by (auto simp: min_def split: if_splits)
qed

lemma get_u32_bytes_at:
  assumes "bytes_at b off n = p" "length p = n" "4 \<le> n"
  shows "get_u32 b off = get_u32 p 0"
  using bytes_at_nth [OF assms(1,2), of 0] bytes_at_nth [OF assms(1,2), of 1]
    bytes_at_nth [OF assms(1,2), of 2] bytes_at_nth [OF assms(1,2), of 3] assms(3)
  by (simp add: get_u32_def numeral_2_eq_2 numeral_3_eq_3)

text \<open>
  On an attribute whose payload fits its field, the body of the loop is defined and does
  what \<open>decode_attr\<close> and \<open>decode_errno\<close> say; on a gateway, source or destination
  payload longer than its field, and on an interface index longer than an \<^verbatim>\<open>int\<close>, it
  is not.
\<close>

lemma get_attr_decode:
  assumes "attrs_at b off (a # as)" "length (snd a) \<le> 1024" "attr_fits r a"
  shows "get_attr ifn b off r eno = Some (decode_attr ifn a r, decode_errno ifn a eno)"
proof -
  let ?n = "length (snd a)"
  from assms(1) have rl: "rta_len b off = word_of_nat (4 + ?n)"
    and ty: "uint (rta_type b off) = fst a"
    and pl: "bytes_at b (off + 4) ?n = snd a"
    by simp_all
  have il: "uint (rta_len b off) = 4 + int ?n" unfolding rl using assms(2)
    by (subst uint_word16_of_nat) simp_all
  have pay: "RTA_PAYLOAD b off = int ?n"
    by (simp add: RTA_PAYLOAD_def il RTA_LENGTH_def RTA_ALIGN_def)
  have n4: "?n = 4" if "fst a = RTA_OIF"
    using assms(3) that by (simp add: attr_fits_def)
  have ix: "get_u32 b (off + 4) = get_u32 (snd a) 0" if "fst a = RTA_OIF"
    using get_u32_bytes_at [OF pl] n4 [OF that] by simp
  have inb: "off + 8 \<le> length b" if "fst a = RTA_OIF"
    using bytes_at_inside [OF pl] n4 [OF that] by simp
  show ?thesis
  proof (cases "fst a = RTA_OIF")
    case True
    have "\<not> length b < RTA_DATA off + 4" using inb [OF True] by simp
    moreover have "bytes_at b (off + 4) 4 = snd a" using pl n4 [OF True] by simp
    ultimately show ?thesis
      using True n4 [OF True]
      by (simp add: get_attr_def decode_attr_def decode_errno_def Let_def ty pay ix [OF True])
  next
    case False
    then show ?thesis
      using assms(3)
      by (auto simp: get_attr_def decode_attr_def decode_errno_def attr_fits_def Let_def
          ty pay pl)
  qed
qed

lemma get_attr_overflow:
  assumes "uint (rta_type b rta) = RTA_GATEWAY \<and> int (length (gwy r)) < RTA_PAYLOAD b rta \<or>
           uint (rta_type b rta) = RTA_PREFSRC \<and> int (length (src r)) < RTA_PAYLOAD b rta \<or>
           uint (rta_type b rta) = RTA_DST \<and> int (length (dst r)) < RTA_PAYLOAD b rta \<or>
           uint (rta_type b rta) = RTA_OIF \<and> 4 < RTA_PAYLOAD b rta"
  shows "get_attr ifn b rta r eno = None"
  using assms by (auto simp: get_attr_def Let_def)

lemma attr_fits_decode [simp]: "attr_fits (decode_attr ifn a r) a' = attr_fits r a'"
  by (simp add: attr_fits_def decode_attr_def Let_def split: sum.splits)

lemma get_attrs_decode:
  assumes "attrs_at b off as"
    and "\<forall>a \<in> set as. length (snd a) \<le> 1024 \<and> attr_fits r a"
  shows "get_attrs ifn b off (int (attrs_space as)) r eno =
     Some (foldl (\<lambda>r a. decode_attr ifn a r) r as, foldl (\<lambda>e a. decode_errno ifn a e) eno as)"
  using assms
proof (induction as arbitrary: off r eno)
  case Nil
  have "\<not> RTA_OK b off 0" by (simp add: RTA_OK_def)
  then show ?case by (subst get_attrs.simps) simp
next
  case (Cons a as)
  let ?n = "length (snd a)"
  from Cons.prems have n: "?n \<le> 1024" and o: "attr_fits r a" by simp_all
  from Cons.prems have rl: "rta_len b off = word_of_nat (4 + ?n)"
    and rest: "attrs_at b (off + attr_space ?n) as"
    by simp_all
  have ul: "unat (rta_len b off) = 4 + ?n" unfolding rl using n by (intro unat_word16_of_nat) simp
  have il: "uint (rta_len b off) = 4 + int ?n" unfolding rl using n
    by (subst uint_word16_of_nat) simp_all
  have st: "rta_step b off = attr_space ?n"
    by (simp add: rta_step_eq ul attr_space_def add.commute)
  have sp: "4 + ?n \<le> attr_space ?n" by (rule attr_space_bounds)
  have ok: "RTA_OK b off (int (attrs_space (a # as)))"
    using sp by (simp add: RTA_OK_def il)
  have g: "get_attr ifn b off r eno = Some (decode_attr ifn a r, decode_errno ifn a eno)"
    using Cons.prems(1) n o by (rule get_attr_decode)
  have w: "get_attrs ifn b off (int (attrs_space (a # as))) r eno =
           get_attrs ifn b (off + attr_space ?n) (int (attrs_space as))
             (decode_attr ifn a r) (decode_errno ifn a eno)"
    using ok by (subst get_attrs.simps) (simp add: st g)
  have fits: "\<forall>x \<in> set as. length (snd x) \<le> 1024 \<and> attr_fits (decode_attr ifn a r) x"
    using Cons.prems(2) by simp
  show ?case
    unfolding w using Cons.IH [OF rest fits] by simp
qed

lemma attr_of_simps [simp]:
  "attr_of ty [] = []"
  "attr_of ty (a # as) = (if fst a = ty then snd a # attr_of ty as else attr_of ty as)"
  by (simp_all add: attr_of_def)

text \<open>What the decoded attributes leave in each field of the route, and in \<^verbatim>\<open>errno\<close>.\<close>

lemma decode_fold_fields:
  fixes as :: "(int \<times> byte list) list" and ifn :: "int \<Rightarrow> int + string"
  defines "F \<equiv> \<lambda>r :: sstp_route. foldl (\<lambda>r a. decode_attr ifn a r) r as"
  shows "family (F r) = family r" and "rt_blen (F r) = rt_blen r"
    and "have_dst (F r) = (have_dst r \<or> attr_of RTA_DST as \<noteq> [])"
    and "have_gwy (F r) = (have_gwy r \<or> attr_of RTA_GATEWAY as \<noteq> [])"
    and "have_src (F r) = (have_src r \<or> attr_of RTA_PREFSRC as \<noteq> [])"
    and "have_oif (F r) = (have_oif r \<or> attr_of RTA_OIF as \<noteq> [])"
    and "dst (F r) = foldl (\<lambda>x p. put_bytes 0 p x) (dst r) (attr_of RTA_DST as)"
    and "gwy (F r) = foldl (\<lambda>x p. put_bytes 0 p x) (gwy r) (attr_of RTA_GATEWAY as)"
    and "src (F r) = foldl (\<lambda>x p. put_bytes 0 p x) (src r) (attr_of RTA_PREFSRC as)"
    and "oif (F r) = foldl (\<lambda>w p. get_u32 (put_bytes 0 p (le32 w)) 0) (oif r) (attr_of RTA_OIF as)"
    and "ifname (F r) =
           foldl (\<lambda>nm p. case ifn (sint (get_u32 p 0)) of Inl e \<Rightarrow> nm | Inr n \<Rightarrow> n)
             (ifname r) (attr_of RTA_OIF as)"
  unfolding F_def
  by (induction as arbitrary: r; simp add: decode_attr_def Let_def split: sum.splits)+

lemma decode_fold_errno:
  "foldl (\<lambda>e a. decode_errno ifn a e) eno as =
     foldl (\<lambda>e p. case ifn (sint (get_u32 p 0)) of Inl x \<Rightarrow> x | Inr n \<Rightarrow> e) eno
       (attr_of RTA_OIF as)"
  by (induction as arbitrary: eno) (simp_all add: decode_errno_def)

lemma get_attr_family:
  assumes "get_attr ifn b rta r eno = Some (r', eno')"
  shows "family r' = family r \<and> rt_blen r' = rt_blen r"
  using assms by (auto simp: get_attr_def Let_def split: if_splits sum.splits)

lemma get_attrs_family:
  "get_attrs ifn b rta rtl r eno = Some (r', eno') \<Longrightarrow>
   family r' = family r \<and> rt_blen r' = rt_blen r"
proof (induction ifn b rta rtl r eno rule: get_attrs.induct)
  case (1 ifn b rta rtl route eno)
  show ?case
  proof (cases "RTA_OK b rta rtl")
    case True
    with "1.prems" obtain r1 e1 where g: "get_attr ifn b rta route eno = Some (r1, e1)"
      and rest: "get_attrs ifn b (rta + rta_step b rta) (rtl - int (rta_step b rta)) r1 e1 =
                 Some (r', eno')"
      by (subst (asm) get_attrs.simps) (auto split: option.splits)
    from "1.IH" [OF True g refl rest] get_attr_family [OF g] show ?thesis by simp
  next
    case False
    with "1.prems" show ?thesis by (subst (asm) get_attrs.simps) simp
  qed
qed

lemma attr_space_member: "a \<in> set as \<Longrightarrow> attr_space (length (snd a)) \<le> attrs_space as"
  by (induction as) auto

lemma attr_of_set: "p \<in> set (attr_of ty as) \<Longrightarrow> (ty, p) \<in> set as"
  by (auto simp: attr_of_def)

lemma put_bytes_zeros:
  "length p \<le> k \<Longrightarrow> put_bytes 0 p (replicate k 0) = p @ replicate (k - length p) 0"
  by (simp add: put_bytes_def)

text \<open>
  C7. The request is sent whole and the first datagram to arrive is a well-formed
  message with a body that answers it. Then \<^verbatim>\<open>sstp_route_get\<close> fails (returns
  \<open>-1\<close>, the route and \<^verbatim>\<open>errno\<close> untouched) unless the reported family is IPv4 or
  IPv6. Otherwise, whenever it returns, it returns 0 with the family and with
  \<open>rt_blen\<close> 4 for IPv4 and 16 for IPv6. When the message carries the attributes \<open>as\<close>,
  each with a payload that fits the field it is copied to (\<open>attr_fits\<close>), it does
  return: the presence flag of each field is set exactly when \<open>as\<close> has an attribute
  of its type; and when \<open>as\<close> has, in any order and with attributes of other types between them,
  one destination, one gateway, one preferred source and one output-interface
  attribute, the route has all four presence flags set, each payload at the start of
  its zeroed field, the interface index, and the interface name that
  \<^verbatim>\<open>if_indextoname\<close> gives; when \<^verbatim>\<open>if_indextoname\<close> fails the name is empty and
  \<^verbatim>\<open>errno\<close> is what that call set.
\<close>

theorem get_decodes_response:
  assumes len: "28 \<le> length d" "length d \<le> 1024"
    and ok: "NLMSG_OK d (int (length d))"
    and ne: "nlmsg_type d \<noteq> NLMSG_ERROR"
    and corr: "nlmsg_seq d = word_of_int (seq ctx + 1)" "nlmsg_pid d = word_of_int pid"
  shows
    "let rq = sstp_route_get_request pid ctx dest;
         c = rq\<lparr>len := int (length d), buf := put_bytes 0 d (buf rq)\<rparr>;
         res = sstp_route_get pid ifn ctx dest route (SendLen (sint (nlmsg_len (buf rq)))) eno
                 (RecvData d # evs);
         fam = uint (rtm_family d);
         blen = (if uint (rtm_family d) = AF_INET6 then 16 else 4);
         name = ifn (sint (get_u32 po 0))
     in (fam \<noteq> AF_INET \<and> fam \<noteq> AF_INET6 \<longrightarrow> res = Some (- 1, route, c, eno, evs)) \<and>
        (fam = AF_INET \<or> fam = AF_INET6 \<longrightarrow>
           (\<forall>rv R c' e evs'. res = Some (rv, R, c', e, evs') \<longrightarrow>
              rv = 0 \<and> c' = c \<and> evs' = evs \<and> family R = fam \<and> rt_blen R = blen) \<and>
           (nlmsg_len d = word_of_nat (28 + attrs_space as) \<and>
            28 + attrs_space as \<le> length d \<and> attrs_at d 28 as \<and>
            list_all (attr_fits route) as \<longrightarrow>
              (\<exists>R e. res = Some (0, R, c, e, evs) \<and>
                 have_dst R = (attr_of RTA_DST as \<noteq> []) \<and>
                 have_gwy R = (attr_of RTA_GATEWAY as \<noteq> []) \<and>
                 have_src R = (attr_of RTA_PREFSRC as \<noteq> []) \<and>
                 have_oif R = (attr_of RTA_OIF as \<noteq> []) \<and>
                 (attr_of RTA_DST as = [pd] \<and> attr_of RTA_GATEWAY as = [pg] \<and>
                  attr_of RTA_PREFSRC as = [ps] \<and> attr_of RTA_OIF as = [po] \<longrightarrow>
                    R = \<lparr>have_oif = True, have_src = True, have_gwy = True, have_dst = True,
                          family = fam, rt_blen = blen,
                          gwy = pg @ replicate (length (gwy route) - length pg) 0,
                          dst = pd @ replicate (length (dst route) - length pd) 0,
                          src = ps @ replicate (length (src route) - length ps) 0,
                          oif = get_u32 po 0,
                          ifname = (case name of Inl x \<Rightarrow> [] | Inr nm \<Rightarrow> nm)\<rparr> \<and>
                    e = (case name of Inl x \<Rightarrow> x | Inr nm \<Rightarrow> eno)))))"
proof -
  define rq where "rq = sstp_route_get_request pid ctx dest"
  define b where "b = put_bytes 0 d (buf rq)"
  define c where "c = rq\<lparr>len := int (length d), buf := b\<rparr>"
  define fam where "fam = uint (rtm_family d)"
  define blen :: int where "blen = (if uint (rtm_family d) = AF_INET6 then 16 else 4)"
  define r2 where "r2 = (route_zero route)\<lparr>family := fam, rt_blen := blen\<rparr>"
  define G where "G = get_attrs ifn b RTM_RTA (RTM_PAYLOAD b) r2 eno"
  define res where "res = sstp_route_get pid ifn ctx dest route
      (SendLen (sint (nlmsg_len (buf rq)))) eno (RecvData d # evs)"
  have lb: "length (buf rq) = 1024" unfolding rq_def by (rule get_request_session)
  have fit: "length d \<le> length (buf rq)" using len lb by simp
  have n16: "16 \<le> length d" using len by simp
  have fm: "rtm_family b = rtm_family d"
    using len fit by (simp add: rtm_family_def b_def nth_put_bytes)
  have nl: "nlmsg_len b = nlmsg_len d"
    unfolding b_def by (rule frame_fields [OF n16 fit])
  have res: "res =
     (if fam \<noteq> AF_INET \<and> fam \<noteq> AF_INET6
      then Some (- 1, route, c, eno, evs)
      else (case G of None \<Rightarrow> None | Some (r3, eno3) \<Rightarrow> Some (0, r3, c, eno3, evs)))"
    unfolding res_def G_def r2_def c_def b_def fam_def blen_def rq_def
    by (subst sstp_route_get_response [OF len(2) ok ne corr])
      (simp add: fm [unfolded b_def rq_def])
  have A: "res = Some (- 1, route, c, eno, evs)" if "fam \<noteq> AF_INET \<and> fam \<noteq> AF_INET6"
    using that res by simp
  have B: "rv = 0 \<and> c' = c \<and> evs' = evs \<and> family R = fam \<and> rt_blen R = blen"
    if f: "fam = AF_INET \<or> fam = AF_INET6" and r: "res = Some (rv, R, c', e, evs')"
    for rv R c' e evs'
  proof -
    from f r res have g: "G = Some (R, e)" and v: "rv = 0" "c' = c" "evs' = evs"
      by (auto split: option.splits)
    from get_attrs_family [OF g [unfolded G_def]] v show ?thesis by (simp add: r2_def)
  qed
  have C: "\<exists>R e. res = Some (0, R, c, e, evs) \<and>
        have_dst R = (attr_of RTA_DST as \<noteq> []) \<and>
        have_gwy R = (attr_of RTA_GATEWAY as \<noteq> []) \<and>
        have_src R = (attr_of RTA_PREFSRC as \<noteq> []) \<and>
        have_oif R = (attr_of RTA_OIF as \<noteq> []) \<and>
        (attr_of RTA_DST as = [pd] \<and> attr_of RTA_GATEWAY as = [pg] \<and>
         attr_of RTA_PREFSRC as = [ps] \<and> attr_of RTA_OIF as = [po] \<longrightarrow>
           R = \<lparr>have_oif = True, have_src = True, have_gwy = True, have_dst = True,
                 family = fam, rt_blen = blen,
                 gwy = pg @ replicate (length (gwy route) - length pg) 0,
                 dst = pd @ replicate (length (dst route) - length pd) 0,
                 src = ps @ replicate (length (src route) - length ps) 0,
                 oif = get_u32 po 0,
                 ifname = (case ifn (sint (get_u32 po 0)) of Inl x \<Rightarrow> [] | Inr nm \<Rightarrow> nm)\<rparr> \<and>
           e = (case ifn (sint (get_u32 po 0)) of Inl x \<Rightarrow> x | Inr nm \<Rightarrow> eno))"
    if f: "fam = AF_INET \<or> fam = AF_INET6"
      and h: "nlmsg_len d = word_of_nat (28 + attrs_space as)"
        "28 + attrs_space as \<le> length d" "attrs_at d 28 as"
        "list_all (attr_fits route) as"
  proof -
    define F where "F = foldl (\<lambda>r a. decode_attr ifn a r) r2 as"
    define E where "E = foldl (\<lambda>e a. decode_errno ifn a e) eno as"
    have S: "attrs_space as \<le> 996" using h(2) len(2) by simp
    have "nlmsg_len b - NLMSG_SPACE sizeof_rtmsg = word_of_nat (attrs_space as)"
      by (simp add: nl h(1) NLMSG_SPACE_rtmsg)
    then have pl: "RTM_PAYLOAD b = int (attrs_space as)"
      unfolding RTM_PAYLOAD_def using S by (simp add: sint_word32_of_nat)
    have "attrs_at b 28 as = attrs_at d 28 as"
      unfolding b_def using h(2) fit
      by (intro attrs_at_cong) (simp_all add: nth_put_bytes)
    then have at: "attrs_at b 28 as" using h(3) by simp
    have fits: "attr_fits route a" if "a \<in> set as" for a
      using h(4) that by (simp add: list_all_iff)
    have fits2: "attr_fits r2 a = attr_fits route a" for a
      by (simp add: attr_fits_def r2_def route_zero_def)
    have small: "length (snd a) \<le> 1024 \<and> attr_fits r2 a" if a: "a \<in> set as" for a
    proof
      have "4 + length (snd a) \<le> attr_space (length (snd a))" by (rule attr_space_bounds)
      with attr_space_member [OF a] S show "length (snd a) \<le> 1024" by simp
      show "attr_fits r2 a" using fits [OF a] by (simp add: fits2)
    qed
    have g: "G = Some (F, E)"
      unfolding G_def pl RTM_RTA_28 F_def E_def using small
      by (intro get_attrs_decode at) blast
    have r: "res = Some (0, F, c, E, evs)" using res f g by auto
    note D = decode_fold_fields [where ifn = ifn and as = as and r = r2, folded F_def]
    have flags: "have_dst F = (attr_of RTA_DST as \<noteq> [])"
      "have_gwy F = (attr_of RTA_GATEWAY as \<noteq> [])"
      "have_src F = (attr_of RTA_PREFSRC as \<noteq> [])"
      "have_oif F = (attr_of RTA_OIF as \<noteq> [])"
      by (simp_all add: D r2_def route_zero_def)
    have four: "F = \<lparr>have_oif = True, have_src = True, have_gwy = True, have_dst = True,
                 family = fam, rt_blen = blen,
                 gwy = pg @ replicate (length (gwy route) - length pg) 0,
                 dst = pd @ replicate (length (dst route) - length pd) 0,
                 src = ps @ replicate (length (src route) - length ps) 0,
                 oif = get_u32 po 0,
                 ifname = (case ifn (sint (get_u32 po 0)) of Inl x \<Rightarrow> [] | Inr nm \<Rightarrow> nm)\<rparr> \<and>
           E = (case ifn (sint (get_u32 po 0)) of Inl x \<Rightarrow> x | Inr nm \<Rightarrow> eno)"
      if k: "attr_of RTA_DST as = [pd]" "attr_of RTA_GATEWAY as = [pg]"
        "attr_of RTA_PREFSRC as = [ps]" "attr_of RTA_OIF as = [po]"
    proof -
      have m: "(RTA_DST, pd) \<in> set as" "(RTA_GATEWAY, pg) \<in> set as"
        "(RTA_PREFSRC, ps) \<in> set as" "(RTA_OIF, po) \<in> set as"
        using k by (simp_all add: attr_of_set)
      have l: "length pd \<le> length (dst route)" "length pg \<le> length (gwy route)"
        "length ps \<le> length (src route)" "length po = 4"
        using fits [OF m(1)] fits [OF m(2)] fits [OF m(3)] fits [OF m(4)]
        by (simp_all add: attr_fits_def)
      have o: "get_u32 (put_bytes 0 po (le32 0)) 0 = get_u32 po 0"
        using l(4) by (simp add: get_u32_put_bytes_inside)
      have "F = \<lparr>have_oif = True, have_src = True, have_gwy = True, have_dst = True,
                 family = fam, rt_blen = blen,
                 gwy = pg @ replicate (length (gwy route) - length pg) 0,
                 dst = pd @ replicate (length (dst route) - length pd) 0,
                 src = ps @ replicate (length (src route) - length ps) 0,
                 oif = get_u32 po 0,
                 ifname = (case ifn (sint (get_u32 po 0)) of Inl x \<Rightarrow> [] | Inr nm \<Rightarrow> nm)\<rparr>"
        by (rule sstp_route.equality)
          (simp_all add: D k l r2_def route_zero_def put_bytes_zeros o)
      moreover have "E = (case ifn (sint (get_u32 po 0)) of Inl x \<Rightarrow> x | Inr nm \<Rightarrow> eno)"
        by (simp add: E_def decode_fold_errno k)
      ultimately show ?thesis by simp
    qed
    show ?thesis using r flags four by blast
  qed
  show ?thesis
    unfolding Let_def
    using A B C
    unfolding res_def rq_def c_def b_def fam_def blen_def
    by blast
qed

lemma ex_request_len: "sint (nlmsg_len (buf ex_ctx)) = 36"
proof -
  have f: "uint (sa_family ex_dest) = AF_INET \<and> (4 :: int) = 4 \<and> sin_addr ex_dest = sin_addr ex_dest \<or>
           uint (sa_family ex_dest) = AF_INET6 \<and> (4 :: int) = 16 \<and> sin_addr ex_dest = sin6_addr ex_dest"
    by (simp add: ex_dest_def)
  have l: "nat 4 \<le> length (sin_addr ex_dest)" by (simp add: ex_dest_def sin_addr_def)
  have "msg_inv (buf ex_ctx) [(RTA_DST, take (nat 4) (sin_addr ex_dest))]"
    unfolding ex_ctx_def by (rule get_request_facts(1) [OF f l])
  then have "sint (nlmsg_len (buf ex_ctx)) =
      28 + int (attrs_space [(RTA_DST, take (nat 4) (sin_addr ex_dest))])"
    by (rule msg_inv_read(1)) (simp_all add: attr_space_def)
  then show ?thesis by (simp add: attr_space_def ex_dest_def sin_addr_def)
qed

theorem get_decodes_response_witness:
  "28 \<le> length ex_resp \<and> length ex_resp \<le> 1024 \<and> NLMSG_OK ex_resp (int (length ex_resp)) \<and>
   nlmsg_type ex_resp \<noteq> NLMSG_ERROR \<and> nlmsg_seq ex_resp = word_of_int (seq ex_ctx0 + 1) \<and>
   nlmsg_pid ex_resp = word_of_int 100 \<and> uint (rtm_family ex_resp) = AF_INET \<and>
   attrs_at ex_resp 28 ex_attrs \<and> list_all (attr_fits ex_route) ex_attrs \<and>
   sstp_route_get 100 ex_no_ifname ex_ctx0 ex_dest ex_route (SendLen 36) 0 [RecvData ex_resp] =
     Some (0,
       \<lparr>have_oif = True, have_src = True, have_gwy = True, have_dst = True,
        family = 2, rt_blen = 4,
        gwy = [192, 168, 1, 1, 0, 0, 0, 0, 0, 0, 0, 0, 0, 0, 0, 0],
        dst = [8, 8, 8, 8, 0, 0, 0, 0, 0, 0, 0, 0, 0, 0, 0, 0],
        src = [192, 168, 1, 20, 0, 0, 0, 0, 0, 0, 0, 0, 0, 0, 0, 0],
        oif = 2, ifname = []\<rparr>,
       ex_ctx\<lparr>len := 68, buf := put_bytes 0 ex_resp (buf ex_ctx)\<rparr>, ENXIO, []) \<and>
   sstp_route_get 100 ex_ifname ex_ctx0 ex_dest ex_route (SendLen 36) 0 [RecvData ex_resp] =
     Some (0,
       \<lparr>have_oif = True, have_src = True, have_gwy = True, have_dst = True,
        family = 2, rt_blen = 4,
        gwy = [192, 168, 1, 1, 0, 0, 0, 0, 0, 0, 0, 0, 0, 0, 0, 0],
        dst = [8, 8, 8, 8, 0, 0, 0, 0, 0, 0, 0, 0, 0, 0, 0, 0],
        src = [192, 168, 1, 20, 0, 0, 0, 0, 0, 0, 0, 0, 0, 0, 0, 0],
        oif = 2, ifname = ''eth0''\<rparr>,
       ex_ctx\<lparr>len := 68, buf := put_bytes 0 ex_resp (buf ex_ctx)\<rparr>, 0, []) \<and>
   28 \<le> length ex_resp_packet \<and> NLMSG_OK ex_resp_packet (int (length ex_resp_packet)) \<and>
   uint (rtm_family ex_resp_packet) = 17 \<and>
   sstp_route_get 100 ex_no_ifname ex_ctx0 ex_dest ex_route (SendLen 36) 0
       [RecvData ex_resp_packet] =
     Some (- 1, ex_route, ex_ctx\<lparr>len := 28, buf := put_bytes 0 ex_resp_packet (buf ex_ctx)\<rparr>,
           0, [])"
proof -
  have l: "length ex_resp = 68" by code_simp
  have h: "28 \<le> length ex_resp" "length ex_resp \<le> 1024"
    "NLMSG_OK ex_resp (int (length ex_resp))" "nlmsg_type ex_resp \<noteq> NLMSG_ERROR"
    "nlmsg_seq ex_resp = word_of_int (seq ex_ctx0 + 1)" "nlmsg_pid ex_resp = word_of_int 100"
    by (simp_all add: l ex_ctx0_def) code_simp+
  have a: "uint (rtm_family ex_resp) = AF_INET" "attrs_at ex_resp 28 ex_attrs"
    "list_all (attr_fits ex_route) ex_attrs"
    by code_simp+
  have f: "uint (rtm_family ex_resp) = AF_INET \<or> uint (rtm_family ex_resp) = AF_INET6"
    using a(1) by simp
  have fr: "nlmsg_len ex_resp = word_of_nat (28 + attrs_space ex_attrs) \<and>
      28 + attrs_space ex_attrs \<le> length ex_resp \<and> attrs_at ex_resp 28 ex_attrs \<and>
      list_all (attr_fits ex_route) ex_attrs"
    by code_simp
  have k: "attr_of RTA_DST ex_attrs = [[8, 8, 8, 8]] \<and>
      attr_of RTA_GATEWAY ex_attrs = [[192, 168, 1, 1]] \<and>
      attr_of RTA_PREFSRC ex_attrs = [[192, 168, 1, 20]] \<and>
      attr_of RTA_OIF ex_attrs = [[2, 0, 0, 0]]"
    by code_simp
  have lp: "length ex_resp_packet = 28" by code_simp
  have hp: "28 \<le> length ex_resp_packet" "length ex_resp_packet \<le> 1024"
    "NLMSG_OK ex_resp_packet (int (length ex_resp_packet))"
    "nlmsg_type ex_resp_packet \<noteq> NLMSG_ERROR"
    "nlmsg_seq ex_resp_packet = word_of_int (seq ex_ctx0 + 1)"
    "nlmsg_pid ex_resp_packet = word_of_int 100"
    by (simp_all add: lp ex_ctx0_def) code_simp+
  have ap: "uint (rtm_family ex_resp_packet) = 17" by code_simp
  have fp: "uint (rtm_family ex_resp_packet) \<noteq> AF_INET \<and>
      uint (rtm_family ex_resp_packet) \<noteq> AF_INET6"
    using ap by simp
  have v: "get_u32 [2, 0, 0, 0] 0 = 2" "uint (rtm_family ex_resp) = 2"
    "(if uint (rtm_family ex_resp) = 10 then 16 else 4) = (4 :: int)"
    "[192, 168, 1, 1] @ replicate (length (gwy ex_route) - length [192, 168, 1, 1 :: byte]) 0 =
       [192, 168, 1, 1, 0, 0, 0, 0, 0, 0, 0, 0, 0, 0, 0, 0 :: byte]"
    "[8, 8, 8, 8] @ replicate (length (dst ex_route) - length [8, 8, 8, 8 :: byte]) 0 =
       [8, 8, 8, 8, 0, 0, 0, 0, 0, 0, 0, 0, 0, 0, 0, 0 :: byte]"
    "[192, 168, 1, 20] @ replicate (length (src ex_route) - length [192, 168, 1, 20 :: byte]) 0 =
       [192, 168, 1, 20, 0, 0, 0, 0, 0, 0, 0, 0, 0, 0, 0, 0 :: byte]"
    by code_simp+
  note T1 = get_decodes_response [OF h, where dest = ex_dest and ifn = ex_no_ifname
        and route = ex_route and eno = 0 and evs = "[]" and as = ex_attrs
        and pd = "[8, 8, 8, 8]" and pg = "[192, 168, 1, 1]" and ps = "[192, 168, 1, 20]"
        and po = "[2, 0, 0, 0]", unfolded Let_def, folded ex_ctx_def, unfolded ex_request_len]
  note T2 = get_decodes_response [OF h, where dest = ex_dest and ifn = ex_ifname
        and route = ex_route and eno = 0 and evs = "[]" and as = ex_attrs
        and pd = "[8, 8, 8, 8]" and pg = "[192, 168, 1, 1]" and ps = "[192, 168, 1, 20]"
        and po = "[2, 0, 0, 0]", unfolded Let_def, folded ex_ctx_def, unfolded ex_request_len]
  note T3 = get_decodes_response [OF hp, where dest = ex_dest and ifn = ex_no_ifname
        and route = ex_route and eno = 0 and evs = "[]", unfolded Let_def, folded ex_ctx_def,
        unfolded ex_request_len]
  from T1 [THEN conjunct2, THEN mp, OF f, THEN conjunct2, THEN mp, OF fr]
  obtain R1 e1 where
    r1: "sstp_route_get 100 ex_no_ifname ex_ctx0 ex_dest ex_route (SendLen 36) 0
           [RecvData ex_resp] =
         Some (0, R1, ex_ctx\<lparr>len := int (length ex_resp), buf := put_bytes 0 ex_resp (buf ex_ctx)\<rparr>,
               e1, [])"
    and i1: "R1 = \<lparr>have_oif = True, have_src = True, have_gwy = True, have_dst = True,
        family = 2, rt_blen = 4,
        gwy = [192, 168, 1, 1, 0, 0, 0, 0, 0, 0, 0, 0, 0, 0, 0, 0],
        dst = [8, 8, 8, 8, 0, 0, 0, 0, 0, 0, 0, 0, 0, 0, 0, 0],
        src = [192, 168, 1, 20, 0, 0, 0, 0, 0, 0, 0, 0, 0, 0, 0, 0],
        oif = 2, ifname = []\<rparr>" "e1 = ENXIO"
    using k unfolding v by (auto simp: ex_no_ifname_def)
  from T2 [THEN conjunct2, THEN mp, OF f, THEN conjunct2, THEN mp, OF fr]
  obtain R2 e2 where
    r2: "sstp_route_get 100 ex_ifname ex_ctx0 ex_dest ex_route (SendLen 36) 0
           [RecvData ex_resp] =
         Some (0, R2, ex_ctx\<lparr>len := int (length ex_resp), buf := put_bytes 0 ex_resp (buf ex_ctx)\<rparr>,
               e2, [])"
    and i2: "R2 = \<lparr>have_oif = True, have_src = True, have_gwy = True, have_dst = True,
        family = 2, rt_blen = 4,
        gwy = [192, 168, 1, 1, 0, 0, 0, 0, 0, 0, 0, 0, 0, 0, 0, 0],
        dst = [8, 8, 8, 8, 0, 0, 0, 0, 0, 0, 0, 0, 0, 0, 0, 0],
        src = [192, 168, 1, 20, 0, 0, 0, 0, 0, 0, 0, 0, 0, 0, 0, 0],
        oif = 2, ifname = ''eth0''\<rparr>" "e2 = 0"
    using k unfolding v by (auto simp: ex_ifname_def)
  note r3 = T3 [THEN conjunct1, THEN mp, OF fp]
  show ?thesis
    using h a hp ap r1 r2 r3 unfolding i1 i2 by (simp add: l lp)
qed

text \<open>
  A gateway payload of 20 bytes does not fit the 16 bytes of the route's gateway field:
  \<^verbatim>\<open>memcpy\<close> writes past the field, and the model gives the call no result.
\<close>

lemma ex_get_overflow:
  "sstp_route_get 100 ex_no_ifname ex_ctx0 ex_dest ex_route (SendLen 36) 0
     [RecvData ex_resp_long] = None"
proof -
  define b where "b = put_bytes 0 ex_resp_long (buf ex_ctx)"
  have lp: "length ex_resp_long = 52" by code_simp
  have hp: "length ex_resp_long \<le> 1024"
    "NLMSG_OK ex_resp_long (int (length ex_resp_long))"
    "nlmsg_type ex_resp_long \<noteq> NLMSG_ERROR"
    "nlmsg_seq ex_resp_long = word_of_int (seq ex_ctx0 + 1)"
    "nlmsg_pid ex_resp_long = word_of_int 100"
    by (simp_all add: lp ex_ctx0_def) code_simp+
  have d: "rtm_family ex_resp_long = 2" "nlmsg_len ex_resp_long = 52"
    "rta_len ex_resp_long 28 = 24" "rta_type ex_resp_long 28 = 5"
    by code_simp+
  have f: "rtm_family b = 2" "nlmsg_len b = 52" "rta_len b 28 = 24" "rta_type b 28 = 5"
    using d
    by (simp_all add: b_def rtm_family_def nlmsg_len_def rta_len_def rta_type_def nth_put_bytes
        get_u16_put_bytes_inside get_u32_put_bytes_inside ex_ctx_facts lp)
  have p: "RTM_PAYLOAD b = 24" "RTA_PAYLOAD b 28 = 20"
    by (simp_all add: RTM_PAYLOAD_def RTA_PAYLOAD_def f NLMSG_SPACE_rtmsg RTA_LENGTH_def
        RTA_ALIGN_def)
  have ok: "RTA_OK b 28 24" by (simp add: RTA_OK_def f)
  have g: "get_attr ex_no_ifname b 28 ((route_zero ex_route)\<lparr>family := 2, rt_blen := 4\<rparr>) 0 = None"
    by (rule get_attr_overflow) (simp add: f p route_zero_def ex_route_def)
  have "get_attrs ex_no_ifname b 28 24 ((route_zero ex_route)\<lparr>family := 2, rt_blen := 4\<rparr>) 0 = None"
    using ok by (subst get_attrs.simps) (simp add: g)
  then show ?thesis
    using sstp_route_get_response [OF hp, where dest = ex_dest and ifn = ex_no_ifname
        and route = ex_route and eno = 0 and evs = "[]", folded ex_ctx_def,
        unfolded ex_request_len, folded b_def, unfolded f p RTM_RTA_28]
    by simp
qed

section \<open>Kernel error frames\<close>

lemma newmsg_session:
  assumes "valid_route route"
  shows "length (buf (snd (sstp_route_newmsg pid ctx route cmd flags))) = 1024"
    and "0 \<le> fst (sstp_route_newmsg pid ctx route cmd flags)"
proof -
  note F = newmsg_facts [OF assms, of pid ctx cmd flags]
  show "length (buf (snd (sstp_route_newmsg pid ctx route cmd flags))) = 1024"
    using F(1) by (simp add: msg_inv_def)
  have "attrs_space (spec_route_attrs route) \<le> 996"
    and "\<forall>a \<in> set (spec_route_attrs route). length (snd a) \<le> 1024"
    using newmsg_attrs(6,7) [OF assms msg_inv_init refl refl refl refl] by simp_all
  from msg_inv_read(1) [OF F(1) this] show "0 \<le> fst (sstp_route_newmsg pid ctx route cmd flags)"
    by (simp add: F(2))
qed

lemma recv_error_frame:
  assumes "length (buf ctx) = 1024" "20 \<le> length d" "length d \<le> 1024"
    and "NLMSG_OK d (int (length d))" "nlmsg_type d = NLMSG_ERROR"
  shows "sstp_route_recv pid ctx eno (RecvData d # evs) =
     (if nlmsgerr_error d \<noteq> 0
      then Some (- 1, ctx\<lparr>len := 0, buf := put_bytes 0 d (buf ctx)\<rparr>,
                 neg_int (nlmsgerr_error d), evs)
      else if nlmsg_seq d = word_of_int (seq ctx) \<and> nlmsg_pid d = word_of_int pid
      then Some (int (length d), ctx\<lparr>len := int (length d), buf := put_bytes 0 d (buf ctx)\<rparr>,
                 eno, evs)
      else sstp_route_recv pid (ctx\<lparr>buf := put_bytes 0 d (buf ctx)\<rparr>) eno evs)"
proof -
  have e: "nlmsgerr_error (put_bytes 0 d (buf ctx)) = nlmsgerr_error d"
    using assms(1,2,3) by (simp add: frame_error)
  show ?thesis
    by (subst sstp_route_recv_frame [OF assms(1,3,4)])
      (auto simp: Let_def e assms(5) sstp_route_recv_def ctx_len_buf_swap)
qed

text \<open>
  C2. The receive loop reads a message that passes \<^verbatim>\<open>NLMSG_OK\<close>, whose type is
  \<^verbatim>\<open>NLMSG_ERROR\<close> and that holds the error code. When the code is not 0,
  \<^verbatim>\<open>sstp_route_recv\<close> returns \<open>-1\<close> with \<^verbatim>\<open>errno\<close> set to the code negated as an
  \<^verbatim>\<open>int\<close>: a value that is not 0, from which the same negation gives the code back,
  and that is minus the code for every code but \<open>-2147483648\<close>. So do
  \<^verbatim>\<open>sstp_route_talk\<close> and the operations that called it when the request was sent
  whole: \<^verbatim>\<open>sstp_route_get\<close> returns \<open>-1\<close> and leaves the route as it was,
  \<^verbatim>\<open>sstp_route_replace\<close> and \<^verbatim>\<open>sstp_route_delete\<close> return \<open>-1\<close>. When the code is 0
  the frame is no error: it is accepted with its length if it answers the request, and
  discarded like any other message if it does not.
\<close>

theorem kernel_error_frame:
  assumes "length (buf ctx) = 1024" and "20 \<le> length d" and "length d \<le> 1024"
    and "NLMSG_OK d (int (length d))" and "nlmsg_type d = NLMSG_ERROR"
  shows
    "(nlmsgerr_error d \<noteq> 0 \<longrightarrow>
        neg_int (nlmsgerr_error d) \<noteq> 0 \<and>
        neg_int (neg_int (nlmsgerr_error d)) = nlmsgerr_error d \<and>
        (nlmsgerr_error d \<noteq> - 2147483648 \<longrightarrow> neg_int (nlmsgerr_error d) = - nlmsgerr_error d) \<and>
        sstp_route_recv pid ctx eno (RecvData d # evs) =
          Some (- 1, ctx\<lparr>len := 0, buf := put_bytes 0 d (buf ctx)\<rparr>,
                neg_int (nlmsgerr_error d), evs) \<and>
        sstp_route_talk pid ctx sz (SendLen sz) eno (RecvData d # evs) =
          Some (- 1, ctx\<lparr>len := 0, buf := put_bytes 0 d (buf ctx)\<rparr>,
                neg_int (nlmsgerr_error d), evs) \<and>
        (let rq = sstp_route_get_request pid ctx dest
         in sstp_route_get pid ifn ctx dest route (SendLen (sint (nlmsg_len (buf rq)))) eno
              (RecvData d # evs) =
            Some (- 1, route, rq\<lparr>len := 0, buf := put_bytes 0 d (buf rq)\<rparr>,
                  neg_int (nlmsgerr_error d), evs)) \<and>
        (valid_route r \<longrightarrow>
           (let m = sstp_route_newmsg pid ctx r RTM_NEWROUTE (NLM_F_CREATE OR NLM_F_REPLACE)
            in sstp_route_replace pid ctx r (SendLen (fst m)) eno (RecvData d # evs) =
               Some (- 1, (snd m)\<lparr>len := 0, buf := put_bytes 0 d (buf (snd m))\<rparr>,
                     neg_int (nlmsgerr_error d), evs)) \<and>
           (let m = sstp_route_newmsg pid ctx r RTM_DELROUTE 0
            in sstp_route_delete pid ctx r (SendLen (fst m)) eno (RecvData d # evs) =
               Some (- 1, (snd m)\<lparr>len := 0, buf := put_bytes 0 d (buf (snd m))\<rparr>,
                     neg_int (nlmsgerr_error d), evs)))) \<and>
     (nlmsgerr_error d = 0 \<longrightarrow>
        sstp_route_recv pid ctx eno (RecvData d # evs) =
          (if nlmsg_seq d = word_of_int (seq ctx) \<and> nlmsg_pid d = word_of_int pid
           then Some (int (length d),
                      ctx\<lparr>len := int (length d), buf := put_bytes 0 d (buf ctx)\<rparr>, eno, evs)
           else sstp_route_recv pid (ctx\<lparr>buf := put_bytes 0 d (buf ctx)\<rparr>) eno evs))"
proof -
  note E = recv_error_frame [OF _ assms(2-5)]
  note N = neg_int_code [of "get_u32 d NLMSG_DATA", folded nlmsgerr_error_def]
  have get: "sstp_route_get pid ifn ctx dest route
        (SendLen (sint (nlmsg_len (buf (sstp_route_get_request pid ctx dest))))) eno
        (RecvData d # evs) =
      Some (- 1, route,
        (sstp_route_get_request pid ctx dest)\<lparr>len := 0,
           buf := put_bytes 0 d (buf (sstp_route_get_request pid ctx dest))\<rparr>,
        neg_int (nlmsgerr_error d), evs)"
    if "nlmsgerr_error d \<noteq> 0"
    using that
    by (simp add: sstp_route_get_def Let_def E get_request_session)
  have rep: "sstp_route_replace pid ctx r
        (SendLen (fst (sstp_route_newmsg pid ctx r RTM_NEWROUTE (NLM_F_CREATE OR NLM_F_REPLACE))))
        eno (RecvData d # evs) =
      Some (- 1,
        (snd (sstp_route_newmsg pid ctx r RTM_NEWROUTE (NLM_F_CREATE OR NLM_F_REPLACE)))\<lparr>len := 0,
           buf := put_bytes 0 d
             (buf (snd (sstp_route_newmsg pid ctx r RTM_NEWROUTE (NLM_F_CREATE OR NLM_F_REPLACE))))\<rparr>,
        neg_int (nlmsgerr_error d), evs)"
    if "nlmsgerr_error d \<noteq> 0" "valid_route r"
  proof -
    obtain n c1 where m:
      "sstp_route_newmsg pid ctx r RTM_NEWROUTE (NLM_F_CREATE OR NLM_F_REPLACE) = (n, c1)"
      by (cases "sstp_route_newmsg pid ctx r RTM_NEWROUTE (NLM_F_CREATE OR NLM_F_REPLACE)")
    with newmsg_session [OF that(2), of pid ctx RTM_NEWROUTE "NLM_F_CREATE OR NLM_F_REPLACE"]
    have "length (buf c1) = 1024" "0 \<le> n" by simp_all
    then show ?thesis using that(1) m by (simp add: sstp_route_replace_def E)
  qed
  have del: "sstp_route_delete pid ctx r
        (SendLen (fst (sstp_route_newmsg pid ctx r RTM_DELROUTE 0))) eno (RecvData d # evs) =
      Some (- 1,
        (snd (sstp_route_newmsg pid ctx r RTM_DELROUTE 0))\<lparr>len := 0,
           buf := put_bytes 0 d (buf (snd (sstp_route_newmsg pid ctx r RTM_DELROUTE 0)))\<rparr>,
        neg_int (nlmsgerr_error d), evs)"
    if "nlmsgerr_error d \<noteq> 0" "valid_route r"
  proof -
    obtain n c1 where m: "sstp_route_newmsg pid ctx r RTM_DELROUTE 0 = (n, c1)"
      by (cases "sstp_route_newmsg pid ctx r RTM_DELROUTE 0")
    with newmsg_session [OF that(2), of pid ctx RTM_DELROUTE 0]
    have "length (buf c1) = 1024" "0 \<le> n" by simp_all
    then show ?thesis using that(1) m by (simp add: sstp_route_delete_def E)
  qed
  show ?thesis
    using get rep del N(1,2,3) by (simp add: Let_def E [OF assms(1)])
qed

lemma ex_frames:
  "length ex_err = 36" "NLMSG_OK ex_err 36" "nlmsg_type ex_err = NLMSG_ERROR"
  "nlmsgerr_error ex_err = - 3"
  "length ex_ack = 36" "NLMSG_OK ex_ack 36" "nlmsg_type ex_ack = NLMSG_ERROR"
  "nlmsgerr_error ex_ack = 0" "nlmsg_seq ex_ack = 1" "nlmsg_pid ex_ack = 100"
  "length ex_err_min = 36" "NLMSG_OK ex_err_min 36" "nlmsg_type ex_err_min = NLMSG_ERROR"
  "nlmsgerr_error ex_err_min = - 2147483648"
  by code_simp+

theorem kernel_error_frame_witness:
  "length (buf ex_ctx) = 1024 \<and> 20 \<le> length ex_err \<and> length ex_err \<le> 1024 \<and>
   NLMSG_OK ex_err (int (length ex_err)) \<and> nlmsg_type ex_err = NLMSG_ERROR \<and>
   nlmsgerr_error ex_err = - 3 \<and>
   sstp_route_recv 100 ex_ctx 0 [RecvData ex_err] =
     Some (- 1, ex_ctx\<lparr>len := 0, buf := put_bytes 0 ex_err (buf ex_ctx)\<rparr>, 3, []) \<and>
   sstp_route_get 100 ex_no_ifname ex_ctx0 ex_dest ex_route (SendLen 36) 0 [RecvData ex_err] =
     Some (- 1, ex_route, ex_ctx\<lparr>len := 0, buf := put_bytes 0 ex_err (buf ex_ctx)\<rparr>, 3, []) \<and>
   valid_route ex_route \<and>
   fst (the (sstp_route_replace 100 ex_ctx0 ex_route
     (SendLen (fst (sstp_route_newmsg 100 ex_ctx0 ex_route RTM_NEWROUTE
        (NLM_F_CREATE OR NLM_F_REPLACE)))) 0 [RecvData ex_err])) = - 1 \<and>
   nlmsg_type ex_err_min = NLMSG_ERROR \<and> nlmsgerr_error ex_err_min = - 2147483648 \<and>
   sstp_route_recv 100 ex_ctx 0 [RecvData ex_err_min] =
     Some (- 1, ex_ctx\<lparr>len := 0, buf := put_bytes 0 ex_err_min (buf ex_ctx)\<rparr>,
           - 2147483648, []) \<and>
   nlmsg_type ex_ack = NLMSG_ERROR \<and> nlmsgerr_error ex_ack = 0 \<and>
   sstp_route_recv 100 ex_ctx 0 [RecvData ex_ack] =
     Some (36, ex_ctx\<lparr>len := 36, buf := put_bytes 0 ex_ack (buf ex_ctx)\<rparr>, 0, [])"
proof -
  have c: "length (buf ex_ctx) = 1024" by (rule ex_ctx_facts)
  have c0: "length (buf ex_ctx0) = 1024" by (simp add: ex_ctx0_def)
  have e: "20 \<le> length ex_err" "length ex_err \<le> 1024" "NLMSG_OK ex_err (int (length ex_err))"
    "nlmsg_type ex_err = NLMSG_ERROR"
    by (simp_all add: ex_frames)
  have m: "20 \<le> length ex_err_min" "length ex_err_min \<le> 1024"
    "NLMSG_OK ex_err_min (int (length ex_err_min))" "nlmsg_type ex_err_min = NLMSG_ERROR"
    by (simp_all add: ex_frames)
  have a: "20 \<le> length ex_ack" "length ex_ack \<le> 1024" "NLMSG_OK ex_ack (int (length ex_ack))"
    "nlmsg_type ex_ack = NLMSG_ERROR"
    by (simp_all add: ex_frames)
  have n: "neg_int (- 3) = 3" "neg_int (- 2147483648) = - 2147483648"
    by (simp_all add: neg_int_def)
  show ?thesis
    using c e ex_route_valid
      kernel_error_frame [OF c e, where pid = 100 and eno = 0 and evs = "[]"]
      kernel_error_frame [OF c0 e, where pid = 100 and eno = 0 and evs = "[]"
        and dest = ex_dest and ifn = ex_no_ifname and route = ex_route and r = ex_route]
      kernel_error_frame [OF c m, where pid = 100 and eno = 0 and evs = "[]"]
      kernel_error_frame [OF c a, where pid = 100 and eno = 0 and evs = "[]"]
    by (simp add: Let_def ex_frames ex_ctx_facts ex_request_len n
        ex_request_len [unfolded ex_ctx_def] flip: ex_ctx_def)
qed

section \<open>Errors of the route lookup\<close>

text \<open>
  C10. Whenever \<^verbatim>\<open>sstp_route_get\<close> of the protocol backend returns, it returns 0 or
  \<open>-1\<close>, and on every return other than 0 (the send failed or was short, the receive
  failed, the answer is malformed, or its family is neither IPv4 nor IPv6) the caller's
  route structure is exactly as it was passed in.
\<close>

theorem get_error_leaves_route:
  assumes "sstp_route_get pid ifn ctx dest route sr eno evs = Some (rv, route', ctx', eno', evs')"
  shows "(rv = 0 \<or> rv = - 1) \<and> (rv \<noteq> 0 \<longrightarrow> route' = route)"
  using assms
  by (auto simp: sstp_route_get_def Let_def split: option.splits if_splits prod.splits)

lemma ex_get_send_fails:
  "sstp_route_get 100 ex_no_ifname ex_ctx0 ex_dest ex_route (SendErr 105) 0 [] =
     Some (- 1, ex_route, ex_ctx, 105, [])"
  by (simp add: sstp_route_get_def sstp_route_talk_def Let_def ex_request_len
      ex_request_len [unfolded ex_ctx_def] flip: ex_ctx_def)

lemma ex_get_family_17:
  "sstp_route_get 100 ex_no_ifname ex_ctx0 ex_dest ex_route (SendLen 36) 0
       [RecvData ex_resp_packet] =
     Some (- 1, ex_route, ex_ctx\<lparr>len := 28, buf := put_bytes 0 ex_resp_packet (buf ex_ctx)\<rparr>,
           0, [])"
proof -
  have lp: "length ex_resp_packet = 28" by code_simp
  have hp: "length ex_resp_packet \<le> 1024"
    "NLMSG_OK ex_resp_packet (int (length ex_resp_packet))"
    "nlmsg_type ex_resp_packet \<noteq> NLMSG_ERROR"
    "nlmsg_seq ex_resp_packet = word_of_int (seq ex_ctx0 + 1)"
    "nlmsg_pid ex_resp_packet = word_of_int 100"
    by (simp_all add: lp ex_ctx0_def) code_simp+
  have "rtm_family ex_resp_packet = 17" by code_simp
  then have f: "rtm_family (put_bytes 0 ex_resp_packet (buf ex_ctx)) = 17"
    by (simp add: rtm_family_def nth_put_bytes ex_ctx_facts lp)
  show ?thesis
    using sstp_route_get_response [OF hp, where dest = ex_dest and ifn = ex_no_ifname
        and route = ex_route and eno = 0 and evs = "[]"]
    by (simp add: ex_request_len ex_request_len [unfolded ex_ctx_def] f f [unfolded ex_ctx_def]
        lp flip: ex_ctx_def)
qed

theorem get_error_leaves_route_witness:
  "sstp_route_get 100 ex_no_ifname ex_ctx0 ex_dest ex_route (SendErr 105) 0 [] =
     Some (- 1, ex_route, ex_ctx, 105, []) \<and>
   sstp_route_get 100 ex_no_ifname ex_ctx0 ex_dest ex_route (SendLen 36) 0
       [RecvData ex_resp_packet] =
     Some (- 1, ex_route, ex_ctx\<lparr>len := 28, buf := put_bytes 0 ex_resp_packet (buf ex_ctx)\<rparr>,
           0, [])"
  using ex_get_send_fails ex_get_family_17
    get_error_leaves_route [OF ex_get_send_fails] get_error_leaves_route [OF ex_get_family_17]
  by simp

section \<open>Opening and closing\<close>

text \<open>
  C8, as amended. \<^verbatim>\<open>sstp_route_done\<close> on a null handle does nothing. On the handle of
  an allocated session whose descriptor is greater than 0 it closes the socket with
  exactly one call of \<^verbatim>\<open>close\<close> and frees the session; the handle then points to
  freed memory, and passing it to \<^verbatim>\<open>sstp_route_done\<close> again is undefined. After
  \<^verbatim>\<open>sstp_route_init\<close> with a fresh descriptor greater than 0, \<^verbatim>\<open>sstp_route_done\<close>
  leaves the open descriptors and the allocated sessions as they were before the two
  calls.
\<close>

theorem done_releases_session:
  "sstp_route_done None os = Some os \<and>
   (ctxs os p = Some c \<and> 0 < sock c \<longrightarrow>
      (\<exists>os'. sstp_route_done (Some p) os = Some os' \<and>
             ctxs os' = (ctxs os)(p := None) \<and>
             open_fds os' = open_fds os - {sock c} \<and>
             close_calls os' = close_calls os @ [sock c] \<and>
             sstp_route_done (Some p) os' = None)) \<and>
   (0 < fd \<and> fd \<notin> open_fds os \<and> ctxs os q = None \<longrightarrow>
      (\<exists>os1 os2. sstp_route_init (Some q) fd cp os = (0, Some q, os1) \<and>
                 open_fds os1 = insert fd (open_fds os) \<and>
                 sstp_route_done (Some q) os1 = Some os2 \<and>
                 open_fds os2 = open_fds os \<and> ctxs os2 = ctxs os \<and>
                 close_calls os2 = close_calls os @ [fd]))"
  by (auto simp: sstp_route_done_def sstp_route_init_def os_close_def os_free_def Let_def)

theorem done_releases_session_witness:
  "sstp_route_done None ex_os = Some ex_os \<and>
   (0 :: int) < 3 \<and> 3 \<notin> open_fds ex_os \<and> ctxs ex_os 7 = None \<and>
   sstp_route_init (Some 7) 3 None ex_os = (0, Some 7, ex_os_open) \<and>
   ctxs ex_os_open 7 = Some \<lparr>sock = 3, seq = 0, len = 0, buf = replicate 1024 0\<rparr> \<and>
   sstp_route_done (Some 7) ex_os_open = Some (ex_os\<lparr>close_calls := [3]\<rparr>)"
  using done_releases_session [of ex_os 7
      "\<lparr>sock = 3, seq = 0, len = 0, buf = replicate 1024 0\<rparr>" 3 7 None]
    done_releases_session [of ex_os_open 7
      "\<lparr>sock = 3, seq = 0, len = 0, buf = replicate 1024 0\<rparr>" 3 7 None]
  by (auto simp: ex_os_def ex_os_open_def sstp_route_done_def sstp_route_init_def os_close_def
      os_free_def Let_def)

text \<open>
  C8 as stated fails: \<^verbatim>\<open>sstp_route_done\<close> takes the handle by value and cannot clear
  the caller's pointer. After \<^verbatim>\<open>sstp_route_init\<close> and one \<^verbatim>\<open>sstp_route_done\<close> the
  session at address 7 is freed, and a second \<^verbatim>\<open>sstp_route_done\<close> on the same handle
  reads \<^verbatim>\<open>ctx->sock\<close> from it and frees it again.
\<close>

theorem done_twice_counterexample:
  "sstp_route_init (Some 7) 3 None ex_os = (0, Some 7, ex_os_open) \<and>
   sstp_route_done (Some 7) ex_os_open = Some (ex_os\<lparr>close_calls := [3]\<rparr>) \<and>
   sstp_route_done (Some 7) (ex_os\<lparr>close_calls := [3]\<rparr>) = None"
  by (auto simp: ex_os_def ex_os_open_def sstp_route_done_def sstp_route_init_def os_close_def
      os_free_def Let_def)

section \<open>The shell backend\<close>

text \<open>
  C9 at a child that is created. \<^verbatim>\<open>popen\<close> succeeds, and \<^verbatim>\<open>sstp_route_replace\<close> and
  \<^verbatim>\<open>sstp_route_delete\<close> of the shell backend reach the end of their bodies after
  \<^verbatim>\<open>pclose\<close> with no \<^verbatim>\<open>return\<close> statement: they return no defined value, not 0.
\<close>

theorem sh_replace_delete_return_nothing:
  "ex_popen (take 254 (''ip route replace '' @ ipcmd ex_sh_route)) = Some [] \<and>
   sh_route_replace ex_popen ex_sh_route = None \<and>
   sh_route_delete ex_popen ex_sh_route = None"
  by (simp add: sh_route_replace_def sh_route_delete_def ex_popen_def)

text \<open>
  \<^verbatim>\<open>sstp_route_get\<close> of the shell backend returns 0 when the address has a text form,
  the child is created and it prints something, and \<open>-1\<close> otherwise.
\<close>

lemma sh_route_get_result:
  "fst (sh_route_get ntop popen sz dest route) =
     (case sstp_ipaddr ntop dest of
        None \<Rightarrow> - 1
      | Some ip \<Rightarrow>
          (case popen (take 254 (''ip route get '' @ ip)) of
             None \<Rightarrow> - 1
           | Some out \<Rightarrow> if out = [] then - 1 else 0))"
  by (simp add: sh_route_get_def fgets_def Let_def split: option.splits)

end
